theory Spec2Isabelle
  imports Main
begin

section \<open>Values of the decoded request\<close>

text \<open>
  The request decoder of \<^verbatim>\<open>django_unicorn/views/request.py\<close> works on the values a
  JSON decoder returns (None, booleans, integers, strings, lists, dicts) and on uploaded
  files. A string is a list of code points below 256. JSON floats are left out: the
  decoder only stores and tests them for emptiness. A dict keeps its insertion order, so
  it is an association list; its keys are strings, or integers where the code assigns
  through an integer subscript (\<^verbatim>\<open>current[base_key][index] = value\<close> on a dict).
\<close>

datatype uploaded_file =
  UploadedFile (file_name: string) (file_size: nat) (file_content_type: string)

datatype pykey = KStr string | KInt int

datatype json =
    JNull
  | JBool bool
  | JInt int
  | JStr string
  | JList "json list"
  | JDict "(pykey \<times> json) list"
  | JFile uploaded_file

text \<open>The exceptions that leave the decoder, by class (and message where the code sets one).\<close>

datatype exn =
    UnicornViewError string
  | AssertionError string
  | JSONDecodeError
  | ValueError
  | TypeError
  | AttributeError
  | KeyError
  | IndexError

datatype exn_class =
  CUnicornViewError | CAssertionError | CJSONDecodeError | CValueError | CTypeError
  | CAttributeError | CKeyError | CIndexError

fun class_of :: "exn \<Rightarrow> exn_class" where
  "class_of (UnicornViewError m) = CUnicornViewError"
| "class_of (AssertionError m) = CAssertionError"
| "class_of JSONDecodeError = CJSONDecodeError"
| "class_of ValueError = CValueError"
| "class_of TypeError = CTypeError"
| "class_of AttributeError = CAttributeError"
| "class_of KeyError = CKeyError"
| "class_of IndexError = CIndexError"

definition then_do :: "exn + 'a \<Rightarrow> ('a \<Rightarrow> exn + 'b) \<Rightarrow> exn + 'b" where
  "then_do m f = (case m of Inl e \<Rightarrow> Inl e | Inr x \<Rightarrow> f x)"

section \<open>The Python operations the decoder uses\<close>

text \<open>\<^verbatim>\<open>not x\<close> is \<open>\<not> truthy x\<close>. A Django file is true when it has a name.\<close>

fun truthy :: "json \<Rightarrow> bool" where
  "truthy JNull = False"
| "truthy (JBool b) = b"
| "truthy (JInt i) = (i \<noteq> 0)"
| "truthy (JStr s) = (s \<noteq> [])"
| "truthy (JList xs) = (xs \<noteq> [])"
| "truthy (JDict d) = (d \<noteq> [])"
| "truthy (JFile f) = (file_name f \<noteq> [])"

text \<open>\<^verbatim>\<open>d[k] = v\<close> on a dict: an existing key keeps its place, a new key goes last.\<close>

fun dict_set :: "(pykey \<times> json) list \<Rightarrow> pykey \<Rightarrow> json \<Rightarrow> (pykey \<times> json) list" where
  "dict_set [] k v = [(k, v)]"
| "dict_set ((k', v') # d) k v =
     (if k' = k then (k, v) # d else (k', v') # dict_set d k v)"

text \<open>\<^verbatim>\<open>x.get(k, default)\<close>: only a dict has the method.\<close>

fun py_get :: "json \<Rightarrow> string \<Rightarrow> json \<Rightarrow> exn + json" where
  "py_get (JDict d) k dflt = Inr (case map_of d (KStr k) of None \<Rightarrow> dflt | Some v \<Rightarrow> v)"
| "py_get other k dflt = Inl AttributeError"

text \<open>\<^verbatim>\<open>p in s\<close> on two strings.\<close>

fun is_substring :: "string \<Rightarrow> string \<Rightarrow> bool" where
  "is_substring p [] = (p = [])"
| "is_substring p (c # cs) = (take (length p) (c # cs) = p \<or> is_substring p cs)"

text \<open>
  \<^verbatim>\<open>k in x\<close> for a string \<open>k\<close>: key membership in a dict, element membership in a list,
  substring in a string; a file is searched line by line, and its lines are bytes, so
  no line equals a string.
\<close>

fun py_contains :: "json \<Rightarrow> string \<Rightarrow> exn + bool" where
  "py_contains (JDict d) k = Inr (KStr k \<in> set (map fst d))"
| "py_contains (JList xs) k = Inr (JStr k \<in> set xs)"
| "py_contains (JStr s) k = Inr (is_substring k s)"
| "py_contains (JFile f) k = Inr False"
| "py_contains other k = Inl TypeError"

text \<open>\<^verbatim>\<open>x[k]\<close> and \<^verbatim>\<open>x[k] = v\<close> for a string \<open>k\<close>.\<close>

fun py_getitem_str :: "json \<Rightarrow> string \<Rightarrow> exn + json" where
  "py_getitem_str (JDict d) k =
     (case map_of d (KStr k) of None \<Rightarrow> Inl KeyError | Some v \<Rightarrow> Inr v)"
| "py_getitem_str other k = Inl TypeError"

fun py_setitem_str :: "json \<Rightarrow> string \<Rightarrow> json \<Rightarrow> exn + json" where
  "py_setitem_str (JDict d) k v = Inr (JDict (dict_set d (KStr k) v))"
| "py_setitem_str other k v = Inl TypeError"

text \<open>\<^verbatim>\<open>len(x)\<close> and \<^verbatim>\<open>x.append(v)\<close>.\<close>

fun py_len :: "json \<Rightarrow> exn + nat" where
  "py_len (JDict d) = Inr (length d)"
| "py_len (JList xs) = Inr (length xs)"
| "py_len (JStr s) = Inr (length s)"
| "py_len (JFile f) = Inr (file_size f)"
| "py_len other = Inl TypeError"

fun py_append :: "json \<Rightarrow> json \<Rightarrow> exn + json" where
  "py_append (JList xs) v = Inr (JList (xs @ [v]))"
| "py_append other v = Inl AttributeError"

text \<open>\<^verbatim>\<open>x[i]\<close> and \<^verbatim>\<open>x[i] = v\<close> for an integer \<open>i\<close>; a negative \<open>i\<close> counts from the end.\<close>

definition seq_pos :: "nat \<Rightarrow> int \<Rightarrow> nat option" where
  "seq_pos n i =
     (let j = (if i < 0 then int n + i else i)
      in if 0 \<le> j \<and> j < int n then Some (nat j) else None)"

fun py_getitem_int :: "json \<Rightarrow> int \<Rightarrow> exn + json" where
  "py_getitem_int (JList xs) i =
     (case seq_pos (length xs) i of None \<Rightarrow> Inl IndexError | Some j \<Rightarrow> Inr (xs ! j))"
| "py_getitem_int (JStr s) i =
     (case seq_pos (length s) i of None \<Rightarrow> Inl IndexError | Some j \<Rightarrow> Inr (JStr [s ! j]))"
| "py_getitem_int (JDict d) i =
     (case map_of d (KInt i) of None \<Rightarrow> Inl KeyError | Some v \<Rightarrow> Inr v)"
| "py_getitem_int other i = Inl TypeError"

fun py_setitem_int :: "json \<Rightarrow> int \<Rightarrow> json \<Rightarrow> exn + json" where
  "py_setitem_int (JList xs) i v =
     (case seq_pos (length xs) i of None \<Rightarrow> Inl IndexError | Some j \<Rightarrow> Inr (JList (xs[j := v])))"
| "py_setitem_int (JDict d) i v = Inr (JDict (dict_set d (KInt i) v))"
| "py_setitem_int other i v = Inl TypeError"

section \<open>Strings: prefix, split, slices and \<^verbatim>\<open>int()\<close>\<close>

definition startswith :: "string \<Rightarrow> string \<Rightarrow> bool" where
  "startswith s p \<longleftrightarrow> take (length p) s = p"

text \<open>\<^verbatim>\<open>s.split(sep)\<close> for a one-character separator: never the empty list.\<close>

fun split_on :: "char \<Rightarrow> string \<Rightarrow> string list" where
  "split_on sep [] = [[]]"
| "split_on sep (c # cs) =
     (if c = sep then [] # split_on sep cs
      else (case split_on sep cs of [] \<Rightarrow> [[c]] | w # ws \<Rightarrow> (c # w) # ws))"

text \<open>
  \<^verbatim>\<open>s.index(ch)\<close>, used by the code only behind the test \<^verbatim>\<open>ch in s\<close>, and the
  slice \<^verbatim>\<open>s[i:j]\<close> for \<open>i, j \<ge> 0\<close> (empty when \<open>j \<le> i\<close>).
\<close>

definition str_index :: "string \<Rightarrow> char \<Rightarrow> nat" where
  "str_index s ch = length (takeWhile (\<lambda>c. c \<noteq> ch) s)"

definition slice :: "string \<Rightarrow> nat \<Rightarrow> nat \<Rightarrow> string" where
  "slice s i j = drop i (take j s)"

text \<open>
  \<^verbatim>\<open>int(s)\<close> on a string: surrounding whitespace is dropped, one sign is allowed, then
  decimal digits with single underscores between them. Anything else is a ValueError.
  The whitespace that \<^verbatim>\<open>int\<close> drops is tab, line feed, vertical tab, form feed,
  carriage return and space, and beyond ASCII the code points 133 and 160; the
  separators 28 to 31 are not dropped.
  (The interpreter's configurable cap on the length of the literal is not modelled.)
\<close>

definition is_space :: "char \<Rightarrow> bool" where
  "is_space c \<longleftrightarrow> (of_char c :: nat) \<in> set [9, 10, 11, 12, 13, 32, 133, 160]"

definition is_digit :: "char \<Rightarrow> bool" where
  "is_digit c \<longleftrightarrow> 48 \<le> (of_char c :: nat) \<and> (of_char c :: nat) \<le> 57"

definition digit_val :: "char \<Rightarrow> nat" where
  "digit_val c = of_char c - 48"

definition strip :: "string \<Rightarrow> string" where
  "strip s = rev (dropWhile is_space (rev (dropWhile is_space s)))"

fun digits_ok :: "string \<Rightarrow> bool" where
  "digits_ok [] = False"
| "digits_ok [c] = is_digit c"
| "digits_ok (c # d # cs) =
     (is_digit c \<and> (if d = CHR ''_'' then digits_ok cs else digits_ok (d # cs)))"

definition digits_val :: "string \<Rightarrow> nat" where
  "digits_val ds = foldl (\<lambda>acc c. 10 * acc + digit_val c) 0 (filter (\<lambda>c. c \<noteq> CHR ''_'') ds)"

definition py_int :: "string \<Rightarrow> exn + int" where
  "py_int s =
     (let t = strip s;
          neg = (t \<noteq> [] \<and> hd t = CHR ''-'');
          ds = (if t \<noteq> [] \<and> (hd t = CHR ''-'' \<or> hd t = CHR ''+'') then tl t else t)
      in if digits_ok ds
         then Inr (if neg then - int (digits_val ds) else int (digits_val ds))
         else Inl ValueError)"

section \<open>The path tree builder: \<^verbatim>\<open>parse_multipart_data\<close>\<close>

text \<open>
  The code walks \<^verbatim>\<open>current\<close> down the tree and mutates it in place. No object of the
  tree is shared, so the model returns the updated \<open>current\<close> and writes each updated
  child back where it was read.
\<close>

record http_request =
  CONTENT_TYPE :: "string option"
  raw_body :: string
  POST :: "(string \<times> string) list"
  FILES :: "(string \<times> uploaded_file list) list"

text \<open>\<^verbatim>\<open>"[" in part and "]" in part\<close>, and the two pieces cut out of such a part.\<close>

definition has_brackets :: "string \<Rightarrow> bool" where
  "has_brackets part \<longleftrightarrow> CHR ''['' \<in> set part \<and> CHR '']'' \<in> set part"

definition base_key_of :: "string \<Rightarrow> string" where
  "base_key_of part = take (str_index part CHR ''['') part"

definition index_text :: "string \<Rightarrow> string" where
  "index_text part = slice part (str_index part CHR ''['' + 1) (str_index part CHR '']'')"

text \<open>\<^verbatim>\<open>if k not in current: current[k] = dflt\<close>\<close>

definition ensure_key :: "json \<Rightarrow> string \<Rightarrow> json \<Rightarrow> exn + json" where
  "ensure_key current k dflt =
     then_do (py_contains current k)
       (\<lambda>present. if present then Inr current else py_setitem_str current k dflt)"

text \<open>\<^verbatim>\<open>while len(lst) <= index: lst.append(filler)\<close>, for \<open>lst = current[base_key]\<close>.\<close>

function pad :: "json \<Rightarrow> int \<Rightarrow> json \<Rightarrow> exn + json" where
  "pad lst index filler =
     (case py_len lst of
        Inl e \<Rightarrow> Inl e
      | Inr n \<Rightarrow>
          if int n \<le> index
          then (case py_append lst filler of
                  Inl e \<Rightarrow> Inl e
                | Inr lst' \<Rightarrow> pad lst' index filler)
          else Inr lst)"
  by pat_completeness auto
termination
proof (relation "measure (\<lambda>(lst, index, filler).
         nat (index + 1 - (case py_len lst of Inl e \<Rightarrow> 0 | Inr n \<Rightarrow> int n)))")
  show "wf (measure (\<lambda>(lst, index, filler).
         nat (index + 1 - (case py_len lst of Inl e \<Rightarrow> 0 | Inr n \<Rightarrow> int n))))"
    by simp
next
  fix lst :: json and index :: int and filler :: json and n :: nat and lst' :: json
  assume "py_len lst = Inr n" "int n \<le> index" "py_append lst filler = Inr lst'"
  then show "((lst', index, filler), (lst, index, filler))
      \<in> measure (\<lambda>(lst, index, filler).
         nat (index + 1 - (case py_len lst of Inl e \<Rightarrow> 0 | Inr n \<Rightarrow> int n)))"
    by (cases lst) auto
qed

declare pad.simps [simp del]

text \<open>One \<^verbatim>\<open>data.\<close> key of the POST pass: the loop over \<^verbatim>\<open>parts[:-1]\<close>, then the final key.\<close>

fun set_path :: "string list \<Rightarrow> json \<Rightarrow> json \<Rightarrow> exn + json" where
  "set_path [] val current = Inl IndexError"
| "set_path [final_key] val current =
     (if has_brackets final_key then
        (case py_int (index_text final_key) of Inl e \<Rightarrow> Inl e | Inr index \<Rightarrow>
         case ensure_key current (base_key_of final_key) (JList []) of Inl e \<Rightarrow> Inl e | Inr current1 \<Rightarrow>
         case py_getitem_str current1 (base_key_of final_key) of Inl e \<Rightarrow> Inl e | Inr lst \<Rightarrow>
         case pad lst index JNull of Inl e \<Rightarrow> Inl e | Inr lst1 \<Rightarrow>
         case py_setitem_int lst1 index val of Inl e \<Rightarrow> Inl e | Inr lst2 \<Rightarrow>
         py_setitem_str current1 (base_key_of final_key) lst2)
      else py_setitem_str current final_key val)"
| "set_path (part # next_part # rest) val current =
     (if has_brackets part then
        (case py_int (index_text part) of Inl e \<Rightarrow> Inl e | Inr index \<Rightarrow>
         case ensure_key current (base_key_of part) (JList []) of Inl e \<Rightarrow> Inl e | Inr current1 \<Rightarrow>
         case py_getitem_str current1 (base_key_of part) of Inl e \<Rightarrow> Inl e | Inr lst \<Rightarrow>
         case pad lst index (JDict []) of Inl e \<Rightarrow> Inl e | Inr lst1 \<Rightarrow>
         case py_getitem_int lst1 index of Inl e \<Rightarrow> Inl e | Inr child \<Rightarrow>
         case set_path (next_part # rest) val child of Inl e \<Rightarrow> Inl e | Inr child' \<Rightarrow>
         case py_setitem_int lst1 index child' of Inl e \<Rightarrow> Inl e | Inr lst2 \<Rightarrow>
         py_setitem_str current1 (base_key_of part) lst2)
      else
        (case ensure_key current part (JDict []) of Inl e \<Rightarrow> Inl e | Inr current1 \<Rightarrow>
         case py_getitem_str current1 part of Inl e \<Rightarrow> Inl e | Inr child \<Rightarrow>
         case set_path (next_part # rest) val child of Inl e \<Rightarrow> Inl e | Inr child' \<Rightarrow>
         py_setitem_str current1 part child'))"

text \<open>One \<^verbatim>\<open>data.\<close> key of the FILES pass: every part is a plain key.\<close>

fun set_file_path :: "string list \<Rightarrow> json \<Rightarrow> json \<Rightarrow> exn + json" where
  "set_file_path [] val current = Inl IndexError"
| "set_file_path [final_key] val current = py_setitem_str current final_key val"
| "set_file_path (part # next_part # rest) val current =
     (case ensure_key current part (JDict []) of Inl e \<Rightarrow> Inl e | Inr current1 \<Rightarrow>
      case py_getitem_str current1 part of Inl e \<Rightarrow> Inl e | Inr child \<Rightarrow>
      case set_file_path (next_part # rest) val child of Inl e \<Rightarrow> Inl e | Inr child' \<Rightarrow>
      py_setitem_str current1 part child')"

text \<open>\<^verbatim>\<open>file_list[0]\<close> when there is exactly one file, the list itself otherwise.\<close>

definition file_value :: "uploaded_file list \<Rightarrow> json" where
  "file_value file_list =
     (if length file_list = 1 then JFile (hd file_list) else JList (map JFile file_list))"

text \<open>
  The two loops. \<open>loads\<close> is the JSON decoder of \<^verbatim>\<open>django_unicorn.serializer\<close>, which
  is not part of the sources at hand: it is a parameter.
\<close>

fun parse_post :: "(string \<Rightarrow> exn + json) \<Rightarrow> (string \<times> string) list \<Rightarrow> json \<Rightarrow> exn + json" where
  "parse_post loads [] data = Inr data"
| "parse_post loads ((key, val) # items) data =
     (case (if startswith key ''data.'' then
              set_path (split_on CHR ''.'' (drop 5 key)) (JStr val) data
            else if key = ''actionQueue'' then
              then_do (loads val) (\<lambda>v. py_setitem_str data key v)
            else py_setitem_str data key (JStr val)) of
        Inl e \<Rightarrow> Inl e
      | Inr data' \<Rightarrow> parse_post loads items data')"

fun parse_files :: "(string \<times> uploaded_file list) list \<Rightarrow> json \<Rightarrow> exn + json" where
  "parse_files [] data = Inr data"
| "parse_files ((key, file_list) # others) data =
     (if startswith key ''data.'' then
        (case set_file_path (split_on CHR ''.'' (drop 5 key)) (file_value file_list) data of
           Inl e \<Rightarrow> Inl e
         | Inr data' \<Rightarrow> parse_files others data')
      else parse_files others data)"

definition parse_multipart_data :: "(string \<Rightarrow> exn + json) \<Rightarrow> http_request \<Rightarrow> exn + json" where
  "parse_multipart_data loads request =
     then_do (parse_post loads (POST request) (JDict []))
       (\<lambda>data. parse_files (FILES request) data)"

section \<open>\<^verbatim>\<open>ComponentRequest\<close>\<close>

text \<open>
  Modelled from the spec: the action classes \<^verbatim>\<open>Action\<close>, \<^verbatim>\<open>SyncInput\<close>,
  \<^verbatim>\<open>CallMethod\<close>, \<^verbatim>\<open>Refresh\<close>, \<^verbatim>\<open>Reset\<close> and \<^verbatim>\<open>Toggle\<close> of the module
  \<^verbatim>\<open>django_unicorn.views.action\<close>, which is not among the sources at hand. The data
  model of the spec makes a classified action a closed variant over these six, "each
  carrying the original raw payload"; \<open>Action\<close>, the base class, is the spec's Generic.
  An object of a class is the class together with the entry of the queue it was built
  from. Whether the constructor of a class raises on an entry is not in the spec: it
  is the parameter \<open>action_init\<close> below.
\<close>

datatype action =
    Action (action_data: json)
  | SyncInput (action_data: json)
  | CallMethod (action_data: json)
  | Refresh (action_data: json)
  | Reset (action_data: json)
  | Toggle (action_data: json)

text \<open>
  Four things the constructor calls are imported from modules that are not among the
  sources at hand; they are parameters of the model. \<open>loads\<close> decodes JSON text and
  raises \<open>JSONDecodeError\<close> on malformed text. \<open>generate_checksum\<close> is the digest of
  the data. \<open>parse_call_method_name\<close> returns the bare method name of a call
  expression (its arguments are dropped by the constructor). \<open>action_init\<close> is the
  \<^verbatim>\<open>__init__\<close> of the action classes, run on the object being built: it returns, or it
  raises.
\<close>

record externals =
  loads :: "string \<Rightarrow> exn + json"
  generate_checksum :: "json \<Rightarrow> exn + string"
  parse_call_method_name :: "json \<Rightarrow> exn + string"
  action_init :: "action \<Rightarrow> exn + unit"

record component_request =
  cr_body :: json
  cr_request :: http_request
  cr_name :: "string option"
  cr_data :: json
  cr_id :: json
  cr_epoch :: json
  cr_key :: json
  cr_hash :: json
  cr_action_queue :: "action list"

definition validate_checksum :: "(json \<Rightarrow> exn + string) \<Rightarrow> json \<Rightarrow> json \<Rightarrow> exn + unit" where
  "validate_checksum gen body data =
     then_do (py_get body ''checksum'' JNull) (\<lambda>checksum.
       if \<not> truthy checksum then Inl (AssertionError ''Missing checksum'')
       else then_do (gen data) (\<lambda>generated_checksum.
         if checksum \<noteq> JStr generated_checksum
         then Inl (AssertionError ''Checksum does not match'')
         else Inr ()))"

text \<open>
  A call of a class on an entry, as in \<^verbatim>\<open>SyncInput(action_data)\<close>: the object, unless
  the constructor raises.
\<close>

definition new_action :: "externals \<Rightarrow> action \<Rightarrow> exn + action" where
  "new_action ext a = then_do (action_init ext a) (\<lambda>done. Inr a)"

text \<open>The body of the loop over the action queue.\<close>

definition classify_action :: "externals \<Rightarrow> json \<Rightarrow> exn + action" where
  "classify_action ext entry =
     then_do (py_get entry ''type'' JNull) (\<lambda>action_type.
     then_do (py_get entry ''payload'' (JDict [])) (\<lambda>payload.
       if action_type = JStr ''syncInput'' then new_action ext (SyncInput entry)
       else if action_type = JStr ''callMethod'' then
         then_do (py_get payload ''name'' (JStr [])) (\<lambda>name.
         then_do (parse_call_method_name ext name) (\<lambda>method_name.
           if method_name = ''$refresh'' then new_action ext (Refresh entry)
           else if method_name = ''$reset'' then new_action ext (Reset entry)
           else if method_name = ''$toggle'' then new_action ext (Toggle entry)
           else new_action ext (CallMethod entry)))
       else new_action ext (Action entry)))"

fun classify_queue :: "externals \<Rightarrow> json list \<Rightarrow> action list \<Rightarrow> exn + action list" where
  "classify_queue ext [] queue = Inr queue"
| "classify_queue ext (entry # entries) queue =
     (case classify_action ext entry of
        Inl e \<Rightarrow> Inl e
      | Inr a \<Rightarrow> classify_queue ext entries (queue @ [a]))"

text \<open>
  What \<^verbatim>\<open>for entry in x\<close> runs over: the elements of a list, the keys of a dict, the
  characters of a string. A file runs over its lines, which are bytes: the model keeps
  no bytes, and gives a file its own case in \<open>classify_all\<close>.
\<close>

fun key_value :: "pykey \<Rightarrow> json" where
  "key_value (KStr s) = JStr s"
| "key_value (KInt i) = JInt i"

fun py_iter :: "json \<Rightarrow> exn + json list" where
  "py_iter (JList xs) = Inr xs"
| "py_iter (JDict d) = Inr (map (\<lambda>kv. key_value (fst kv)) d)"
| "py_iter (JStr s) = Inr (map (\<lambda>c. JStr [c]) s)"
| "py_iter other = Inl TypeError"

text \<open>
  The whole loop. An empty file has no line; the first line of any other file has no
  \<^verbatim>\<open>get\<close> method.
\<close>

fun classify_all :: "externals \<Rightarrow> json \<Rightarrow> exn + action list" where
  "classify_all ext (JFile f) = (if file_size f = 0 then Inr [] else Inl AttributeError)"
| "classify_all ext q = then_do (py_iter q) (\<lambda>entries. classify_queue ext entries [])"

definition is_multipart :: "http_request \<Rightarrow> bool" where
  "is_multipart request \<longleftrightarrow>
     is_substring ''multipart/form-data''
       (case CONTENT_TYPE request of None \<Rightarrow> [] | Some content_type \<Rightarrow> content_type)"

text \<open>The \<^verbatim>\<open>try\<close> block of the constructor: only \<open>JSONDecodeError\<close> is caught.\<close>

definition read_body :: "externals \<Rightarrow> http_request \<Rightarrow> exn + json" where
  "read_body ext request =
     (case (if is_multipart request then parse_multipart_data (loads ext) request
            else loads ext (raw_body request)) of
        Inl e \<Rightarrow>
          if e = JSONDecodeError then Inl (UnicornViewError ''Body could not be parsed'')
          else Inl e
      | Inr body \<Rightarrow>
          if \<not> truthy body then Inl (AssertionError ''Invalid body'') else Inr body)"

definition name_given :: "string option \<Rightarrow> bool" where
  "name_given component_name \<longleftrightarrow> component_name \<noteq> None \<and> component_name \<noteq> Some []"

text \<open>
  \<^verbatim>\<open>ComponentRequest.__init__\<close>, in the order of its statements: the \<^verbatim>\<open>try\<close> block
  (\<open>read_body\<close>), the required fields (\<open>check_fields\<close>, which leaves the action queue
  empty), \<^verbatim>\<open>self.validate_checksum()\<close>, and the loop over the action queue
  (\<open>classify_into\<close>).
\<close>

definition check_fields :: "http_request \<Rightarrow> json \<Rightarrow> string option \<Rightarrow> exn + component_request" where
  "check_fields request body component_name =
     (if \<not> name_given component_name then Inl (AssertionError ''Missing component name'')
      else
      then_do (py_get body ''data'' JNull) (\<lambda>data.
      if data = JNull then Inl (AssertionError ''Missing data'')
      else
      then_do (py_get body ''id'' JNull) (\<lambda>ident.
      if \<not> truthy ident then Inl (AssertionError ''Missing component id'')
      else
      then_do (py_get body ''epoch'' (JStr [])) (\<lambda>epoch.
      if \<not> truthy epoch then Inl (AssertionError ''Missing epoch'')
      else
      then_do (py_get body ''key'' (JStr [])) (\<lambda>key.
      then_do (py_get body ''hash'' (JStr [])) (\<lambda>hash.
        Inr \<lparr> cr_body = body, cr_request = request, cr_name = component_name,
              cr_data = data, cr_id = ident, cr_epoch = epoch, cr_key = key,
              cr_hash = hash, cr_action_queue = [] \<rparr>))))))"

definition classify_into :: "externals \<Rightarrow> component_request \<Rightarrow> exn + component_request" where
  "classify_into ext cr =
     then_do (py_get (cr_body cr) ''actionQueue'' (JList [])) (\<lambda>queue.
     then_do (classify_all ext queue) (\<lambda>actions.
       Inr (cr \<lparr> cr_action_queue := actions \<rparr>)))"

definition ComponentRequest :: "externals \<Rightarrow> http_request \<Rightarrow> string option \<Rightarrow> exn + component_request" where
  "ComponentRequest ext request component_name =
     then_do (read_body ext request) (\<lambda>body.
     then_do (check_fields request body component_name) (\<lambda>cr.
     then_do (validate_checksum (generate_checksum ext) (cr_body cr) (cr_data cr)) (\<lambda>checked.
       classify_into ext cr)))"

section \<open>Stand-ins for running the model on examples\<close>

text \<open>
  To run the constructor on a concrete request, the four parameters need values: a
  decoder that returns a given document, a digest that returns a given string, a name
  parser that cuts a call expression at its first parenthesis, and action classes
  whose constructors accept every entry.
\<close>

definition bare_name :: "json \<Rightarrow> exn + string" where
  "bare_name name =
     (case name of JStr s \<Rightarrow> Inr (takeWhile (\<lambda>c. c \<noteq> CHR ''('') s) | _ \<Rightarrow> Inl TypeError)"

definition stand_in :: "json \<Rightarrow> string \<Rightarrow> externals" where
  "stand_in doc digest =
     \<lparr> loads = (\<lambda>text. Inr doc), generate_checksum = (\<lambda>data. Inr digest),
       parse_call_method_name = bare_name, action_init = (\<lambda>a. Inr ()) \<rparr>"

definition json_request :: http_request where
  "json_request =
     \<lparr> CONTENT_TYPE = Some ''application/json'', raw_body = ''{...}'', POST = [], FILES = [] \<rparr>"

definition form_request :: "(string \<times> string) list \<Rightarrow> (string \<times> uploaded_file list) list \<Rightarrow> http_request" where
  "form_request post_items file_lists =
     \<lparr> CONTENT_TYPE = Some ''multipart/form-data; boundary=x'', raw_body = [],
       POST = post_items, FILES = file_lists \<rparr>"

text \<open>A small component document with a counter, with further entries appended.\<close>

definition counter_doc :: "(pykey \<times> json) list \<Rightarrow> json" where
  "counter_doc extra =
     JDict ([(KStr ''data'', JDict [(KStr ''count'', JInt 1)]), (KStr ''id'', JStr ''c1''),
             (KStr ''epoch'', JStr ''17'')] @ extra)"

definition counter_cr :: "(pykey \<times> json) list \<Rightarrow> action list \<Rightarrow> component_request" where
  "counter_cr extra actions =
     \<lparr> cr_body = counter_doc extra, cr_request = json_request, cr_name = Some ''counter'',
       cr_data = JDict [(KStr ''count'', JInt 1)], cr_id = JStr ''c1'', cr_epoch = JStr ''17'',
       cr_key = (case map_of extra (KStr ''key'') of None \<Rightarrow> JStr [] | Some v \<Rightarrow> v),
       cr_hash = (case map_of extra (KStr ''hash'') of None \<Rightarrow> JStr [] | Some v \<Rightarrow> v),
       cr_action_queue = actions \<rparr>"

section \<open>Vocabulary of the properties\<close>

definition checksum_failure :: "exn \<Rightarrow> bool" where
  "checksum_failure e \<longleftrightarrow>
     e = AssertionError ''Missing checksum'' \<or> e = AssertionError ''Checksum does not match''"

definition null_or_absent :: "(pykey \<times> json) list \<Rightarrow> string \<Rightarrow> bool" where
  "null_or_absent d k = (case map_of d (KStr k) of None \<Rightarrow> True | Some v \<Rightarrow> v = JNull)"

definition falsy_or_absent :: "(pykey \<times> json) list \<Rightarrow> string \<Rightarrow> bool" where
  "falsy_or_absent d k = (case map_of d (KStr k) of None \<Rightarrow> True | Some v \<Rightarrow> \<not> truthy v)"

text \<open>The four errors of the required fields.\<close>

definition missing_field :: "exn \<Rightarrow> bool" where
  "missing_field e \<longleftrightarrow>
     e = AssertionError ''Missing component name'' \<or> e = AssertionError ''Missing data''
     \<or> e = AssertionError ''Missing component id'' \<or> e = AssertionError ''Missing epoch''"

text \<open>
  What the classifier reads in an entry of the queue: its type, and the name in its
  payload (an absent payload is an empty dict, an absent name the empty string).
\<close>

definition type_of_entry :: "json \<Rightarrow> json" where
  "type_of_entry entry =
     (case entry of
        JDict d \<Rightarrow> (case map_of d (KStr ''type'') of None \<Rightarrow> JNull | Some t \<Rightarrow> t)
      | _ \<Rightarrow> JNull)"

definition payload_of_entry :: "json \<Rightarrow> json" where
  "payload_of_entry entry =
     (case entry of
        JDict d \<Rightarrow> (case map_of d (KStr ''payload'') of None \<Rightarrow> JDict [] | Some p \<Rightarrow> p)
      | _ \<Rightarrow> JDict [])"

definition call_name :: "json \<Rightarrow> json" where
  "call_name entry =
     (case payload_of_entry entry of
        JDict p \<Rightarrow> (case map_of p (KStr ''name'') of None \<Rightarrow> JStr [] | Some n \<Rightarrow> n)
      | _ \<Rightarrow> JStr [])"

definition is_dict :: "json \<Rightarrow> bool" where
  "is_dict v = (case v of JDict d \<Rightarrow> True | _ \<Rightarrow> False)"

text \<open>
  The class for a parsed bare method name, and whether the constructor of a class
  accepts an entry.
\<close>

definition method_action :: "string \<Rightarrow> json \<Rightarrow> action" where
  "method_action m entry =
     (if m = ''$refresh'' then Refresh entry
      else if m = ''$reset'' then Reset entry
      else if m = ''$toggle'' then Toggle entry
      else CallMethod entry)"

definition constructs :: "externals \<Rightarrow> action \<Rightarrow> bool" where
  "constructs ext a = (case action_init ext a of Inl e \<Rightarrow> False | Inr u \<Rightarrow> True)"

text \<open>
  A raw action payload as the data model has it: a mapping; when its type is
  \<open>callMethod\<close>, its payload is a mapping whose name the method name parser accepts;
  and the constructor of the class it belongs to accepts it.
\<close>

definition raw_action :: "externals \<Rightarrow> json \<Rightarrow> bool" where
  "raw_action ext entry \<longleftrightarrow>
     is_dict entry \<and>
     (if type_of_entry entry = JStr ''syncInput'' then constructs ext (SyncInput entry)
      else if type_of_entry entry = JStr ''callMethod'' then
        is_dict (payload_of_entry entry) \<and>
        (case parse_call_method_name ext (call_name entry) of
           Inl e \<Rightarrow> False
         | Inr m \<Rightarrow> constructs ext (method_action m entry))
      else constructs ext (Action entry))"

text \<open>
  One turn of the loop over \<^verbatim>\<open>parts[:-1]\<close> of the POST pass, as the value that
  \<^verbatim>\<open>current\<close> takes, and the turns over a list of parts.
\<close>

definition descend :: "string \<Rightarrow> json \<Rightarrow> exn + json" where
  "descend part current =
     (if has_brackets part then
        then_do (py_int (index_text part)) (\<lambda>index.
        then_do (ensure_key current (base_key_of part) (JList [])) (\<lambda>current1.
        then_do (py_getitem_str current1 (base_key_of part)) (\<lambda>lst.
        then_do (pad lst index (JDict [])) (\<lambda>lst1.
          py_getitem_int lst1 index))))
      else
        then_do (ensure_key current part (JDict [])) (\<lambda>current1.
          py_getitem_str current1 part))"

fun walk :: "string list \<Rightarrow> json \<Rightarrow> exn + json" where
  "walk [] current = Inr current"
| "walk (part # parts) current = then_do (descend part current) (walk parts)"

text \<open>A segment with both brackets whose index text \<^verbatim>\<open>int\<close> rejects.\<close>

definition bad_index :: "string \<Rightarrow> bool" where
  "bad_index seg \<longleftrightarrow>
     has_brackets seg \<and> (case py_int (index_text seg) of Inl e \<Rightarrow> True | Inr i \<Rightarrow> False)"

text \<open>
  A sequence extended with a filler until position \<open>n\<close> exists, and a sequence as it is
  bound to a key in a dict: absent (then empty), or the list bound to it.
\<close>

definition zero_extend :: "json list \<Rightarrow> nat \<Rightarrow> json \<Rightarrow> json list" where
  "zero_extend xs n filler = xs @ replicate (Suc n - length xs) filler"

definition bound_sequence :: "(pykey \<times> json) list \<Rightarrow> string \<Rightarrow> json list \<Rightarrow> bool" where
  "bound_sequence d name xs \<longleftrightarrow>
     (case map_of d (KStr name) of None \<Rightarrow> xs = [] | Some v \<Rightarrow> v = JList xs)"

text \<open>A character that no integer literal contains.\<close>

definition not_int_char :: "char \<Rightarrow> bool" where
  "not_int_char c \<longleftrightarrow>
     \<not> is_digit c \<and> \<not> is_space c \<and> c \<noteq> CHR ''+'' \<and> c \<noteq> CHR ''-'' \<and> c \<noteq> CHR ''_''"

text \<open>Two uploaded files for the examples.\<close>

definition report_file :: uploaded_file where
  "report_file = UploadedFile ''report.pdf'' 2048 ''application/pdf''"

definition photo_file :: uploaded_file where
  "photo_file = UploadedFile ''photo.png'' 512 ''image/png''"

section \<open>Basic facts\<close>

lemma then_do_Inl [simp]: "then_do (Inl e) f = Inl e"
  by (simp add: then_do_def)

lemma then_do_Inr [simp]: "then_do (Inr x) f = f x"
  by (simp add: then_do_def)

lemma then_do_eq_Inr: "then_do m f = Inr y \<longleftrightarrow> (\<exists>x. m = Inr x \<and> f x = Inr y)"
  by (cases m) simp_all

lemma check_fields_Inr:
  assumes "check_fields request body component_name = Inr cr"
  shows "cr_body cr = body" and "cr_action_queue cr = []" and "\<exists>d. body = JDict d"
    and "py_get body ''data'' JNull = Inr (cr_data cr)"
    and "name_given component_name"
  using assms
  by (cases body; auto simp: check_fields_def split: if_splits)+

lemma validate_checksum_cases:
  assumes "py_get body ''checksum'' JNull = Inr c"
  shows "validate_checksum gen body data =
     (if \<not> truthy c then Inl (AssertionError ''Missing checksum'')
      else case gen data of
             Inl e \<Rightarrow> Inl e
           | Inr s \<Rightarrow> if c = JStr s then Inr ()
                      else Inl (AssertionError ''Checksum does not match''))"
  using assms by (simp add: validate_checksum_def split: sum.splits)

lemma ComponentRequest_after_body:
  assumes "read_body ext request = Inr body"
  shows "ComponentRequest ext request component_name =
           then_do (check_fields request body component_name) (\<lambda>cr.
           then_do (validate_checksum (generate_checksum ext) (cr_body cr) (cr_data cr))
             (\<lambda>checked. classify_into ext cr))"
  using assms by (simp add: ComponentRequest_def)

lemma ComponentRequest_after_fields:
  assumes "read_body ext request = Inr body"
      and "check_fields request body component_name = Inr cr"
  shows "ComponentRequest ext request component_name =
           then_do (validate_checksum (generate_checksum ext) body (cr_data cr))
             (\<lambda>checked. classify_into ext cr)"
  using assms check_fields_Inr(1) [OF assms(2)] by (simp add: ComponentRequest_def)

text \<open>The stand-ins, evaluated.\<close>

lemma read_body_stand_in:
  "read_body (stand_in doc digest) json_request =
     (if truthy doc then Inr doc else Inl (AssertionError ''Invalid body''))"
  by (simp add: read_body_def stand_in_def json_request_def is_multipart_def)

lemma check_fields_counter:
  "check_fields json_request (counter_doc extra) (Some ''counter'') = Inr (counter_cr extra [])"
  by (simp add: check_fields_def counter_doc_def counter_cr_def name_given_def)

lemma truthy_counter_doc: "truthy (counter_doc extra)"
  by (simp add: counter_doc_def)

lemma checksum_of_counter_doc:
  "py_get (counter_doc extra) ''checksum'' JNull =
     Inr (case map_of extra (KStr ''checksum'') of None \<Rightarrow> JNull | Some v \<Rightarrow> v)"
  by (simp add: counter_doc_def)

lemma queue_of_counter_doc:
  "py_get (counter_doc extra) ''actionQueue'' (JList []) =
     Inr (case map_of extra (KStr ''actionQueue'') of None \<Rightarrow> JList [] | Some v \<Rightarrow> v)"
  by (simp add: counter_doc_def)

section \<open>The checksum check\<close>

text \<open>
  C1. Let the body be decoded and the required fields be present, and let the digest
  of the data be a non-empty string (the digest is a parameter of the model; the one of
  the package is eight characters long). If the body carries that digest as its
  checksum, \<open>validate_checksum\<close> succeeds and construction goes on to the action
  queue. If the checksum is absent or empty, construction fails with the assertion
  "Missing checksum"; if it is any other value than the digest, in particular the
  digest followed by "x", construction fails with "Checksum does not match".
\<close>

theorem checksum_gate:
  assumes "read_body ext request = Inr body"
      and "check_fields request body component_name = Inr cr"
      and "generate_checksum ext (cr_data cr) = Inr digest"
      and "digest \<noteq> []"
  shows "(py_get body ''checksum'' JNull = Inr (JStr digest) \<longrightarrow>
            validate_checksum (generate_checksum ext) body (cr_data cr) = Inr () \<and>
            ComponentRequest ext request component_name =
              classify_into ext cr)
       \<and> (\<forall>c. py_get body ''checksum'' JNull = Inr c \<and> \<not> truthy c \<longrightarrow>
            validate_checksum (generate_checksum ext) body (cr_data cr) =
              Inl (AssertionError ''Missing checksum'') \<and>
            ComponentRequest ext request component_name =
              Inl (AssertionError ''Missing checksum''))
       \<and> (\<forall>c. py_get body ''checksum'' JNull = Inr c \<and> truthy c \<and> c \<noteq> JStr digest \<longrightarrow>
            validate_checksum (generate_checksum ext) body (cr_data cr) =
              Inl (AssertionError ''Checksum does not match'') \<and>
            ComponentRequest ext request component_name =
              Inl (AssertionError ''Checksum does not match''))
       \<and> (py_get body ''checksum'' JNull = Inr (JStr (digest @ ''x'')) \<longrightarrow>
            ComponentRequest ext request component_name =
              Inl (AssertionError ''Checksum does not match''))"
proof -
  note cr = ComponentRequest_after_fields [OF assms(1,2)]
  show ?thesis
    using assms(3,4) by (simp add: cr validate_checksum_cases)
qed

theorem checksum_gate_witness:
  "ComponentRequest (stand_in (counter_doc [(KStr ''checksum'', JStr ''Zk3pQ9aa'')]) ''Zk3pQ9aa'')
     json_request (Some ''counter'') =
     Inr (counter_cr [(KStr ''checksum'', JStr ''Zk3pQ9aa'')] [])
   \<and> ComponentRequest (stand_in (counter_doc [(KStr ''checksum'', JStr ''Zk3pQ9aax'')]) ''Zk3pQ9aa'')
       json_request (Some ''counter'') = Inl (AssertionError ''Checksum does not match'')
   \<and> ComponentRequest (stand_in (counter_doc [(KStr ''checksum'', JStr [])]) ''Zk3pQ9aa'')
       json_request (Some ''counter'') = Inl (AssertionError ''Missing checksum'')
   \<and> ComponentRequest (stand_in (counter_doc []) ''Zk3pQ9aa'')
       json_request (Some ''counter'') = Inl (AssertionError ''Missing checksum'')"
proof -
  have body: "read_body (stand_in (counter_doc extra) ''Zk3pQ9aa'') json_request =
      Inr (counter_doc extra)" for extra
    by (simp add: read_body_stand_in truthy_counter_doc)
  have digest: "generate_checksum (stand_in (counter_doc extra) ''Zk3pQ9aa'')
      (cr_data (counter_cr extra [])) = Inr ''Zk3pQ9aa''" for extra
    by (simp add: stand_in_def)
  have nonempty: "''Zk3pQ9aa'' \<noteq> []"
    by simp
  have queue: "classify_into (stand_in doc ''Zk3pQ9aa'')
      (counter_cr [(KStr ''checksum'', JStr ''Zk3pQ9aa'')] []) =
      Inr (counter_cr [(KStr ''checksum'', JStr ''Zk3pQ9aa'')] [])" for doc
    by (simp add: classify_into_def counter_cr_def queue_of_counter_doc)
  show ?thesis
    using checksum_gate [OF body check_fields_counter digest nonempty,
            of "[(KStr ''checksum'', JStr ''Zk3pQ9aa'')]"]
          checksum_gate [OF body check_fields_counter digest nonempty,
            of "[(KStr ''checksum'', JStr ''Zk3pQ9aax'')]"]
          checksum_gate [OF body check_fields_counter digest nonempty,
            of "[(KStr ''checksum'', JStr [])]"]
          checksum_gate [OF body check_fields_counter digest nonempty, of "[]"]
    by (simp add: checksum_of_counter_doc queue)
qed

lemma read_body_failures:
  "(\<not> is_multipart request \<and> loads ext (raw_body request) = Inl JSONDecodeError \<longrightarrow>
      read_body ext request = Inl (UnicornViewError ''Body could not be parsed''))
 \<and> (is_multipart request \<and> parse_multipart_data (loads ext) request = Inl JSONDecodeError \<longrightarrow>
      read_body ext request = Inl (UnicornViewError ''Body could not be parsed''))
 \<and> (\<not> is_multipart request \<and> loads ext (raw_body request) = Inr body \<and> \<not> truthy body \<longrightarrow>
      read_body ext request = Inl (AssertionError ''Invalid body''))
 \<and> (is_multipart request \<and> parse_multipart_data (loads ext) request = Inr body \<and> \<not> truthy body \<longrightarrow>
      read_body ext request = Inl (AssertionError ''Invalid body''))"
  by (simp add: read_body_def)

section \<open>The order of the checks\<close>

text \<open>
  C2. The constructor reports the first failing check, in this order: a failure to read
  the body (a decoding error, or an empty decoded body), a missing component name,
  missing data, a missing id, a missing epoch, a failing checksum. In particular a body
  with neither id nor epoch never fails with "Missing epoch": once the name and the
  data are there, it fails with "Missing component id".
\<close>

theorem validation_order:
  "(read_body ext request = Inl e \<longrightarrow> ComponentRequest ext request component_name = Inl e)
 \<and> (read_body ext request = Inr body \<longrightarrow>
      (\<not> name_given component_name \<longrightarrow>
         ComponentRequest ext request component_name =
           Inl (AssertionError ''Missing component name''))
    \<and> (name_given component_name \<and> py_get body ''data'' JNull = Inr JNull \<longrightarrow>
         ComponentRequest ext request component_name = Inl (AssertionError ''Missing data''))
    \<and> (name_given component_name \<and> py_get body ''data'' JNull = Inr data \<and> data \<noteq> JNull
         \<and> py_get body ''id'' JNull = Inr ident \<and> \<not> truthy ident \<longrightarrow>
         ComponentRequest ext request component_name =
           Inl (AssertionError ''Missing component id''))
    \<and> (name_given component_name \<and> py_get body ''data'' JNull = Inr data \<and> data \<noteq> JNull
         \<and> py_get body ''id'' JNull = Inr ident \<and> truthy ident
         \<and> py_get body ''epoch'' (JStr []) = Inr epoch \<and> \<not> truthy epoch \<longrightarrow>
         ComponentRequest ext request component_name = Inl (AssertionError ''Missing epoch''))
    \<and> (check_fields request body component_name = Inr cr
         \<and> validate_checksum (generate_checksum ext) body (cr_data cr) = Inl e' \<longrightarrow>
         ComponentRequest ext request component_name = Inl e')
    \<and> (py_get body ''id'' JNull = Inr JNull \<and> py_get body ''epoch'' (JStr []) = Inr (JStr []) \<longrightarrow>
         ComponentRequest ext request component_name \<noteq> Inl (AssertionError ''Missing epoch'')
         \<and> (name_given component_name \<and> py_get body ''data'' JNull \<noteq> Inr JNull \<longrightarrow>
              ComponentRequest ext request component_name =
                Inl (AssertionError ''Missing component id''))))"
proof -
  have a: "read_body ext request = Inl e \<Longrightarrow> ComponentRequest ext request component_name = Inl e"
    by (simp add: ComponentRequest_def)
  note b = ComponentRequest_after_body
  have c: "ComponentRequest ext request component_name = Inl e'"
    if "read_body ext request = Inr body" "check_fields request body component_name = Inr cr"
       "validate_checksum (generate_checksum ext) body (cr_data cr) = Inl e'"
    using that by (simp add: ComponentRequest_after_fields)
  have d: "check_fields request body component_name \<noteq> Inl (AssertionError ''Missing epoch'')"
    if "py_get body ''id'' JNull = Inr JNull"
    using that by (cases body) (auto simp: check_fields_def split: if_splits)
  have d': "\<exists>e. check_fields request body component_name = Inl e"
    if "py_get body ''id'' JNull = Inr JNull"
    using that by (cases body) (auto simp: check_fields_def split: if_splits)
  have d'': "check_fields request body component_name = Inl (AssertionError ''Missing component id'')"
    if "py_get body ''id'' JNull = Inr JNull" "name_given component_name"
       "py_get body ''data'' JNull \<noteq> Inr JNull"
    using that by (cases body) (auto simp: check_fields_def split: if_splits)
  show ?thesis
    apply (intro conjI impI)
    subgoal by (rule a)
    subgoal by (simp add: b check_fields_def)
    subgoal by (simp add: b check_fields_def)
    subgoal by (simp add: b check_fields_def)
    subgoal by (simp add: b check_fields_def)
    subgoal using c by blast
    subgoal using d d' by (auto simp: b)
    subgoal using d'' by (auto simp: b)
    done
qed

theorem validation_order_witness:
  "ComponentRequest (stand_in JNull ''Zk3pQ9aa'') json_request None =
     Inl (AssertionError ''Invalid body'')
   \<and> ComponentRequest (stand_in (JDict [(KStr ''checksum'', JStr ''no'')]) ''Zk3pQ9aa'')
        json_request None = Inl (AssertionError ''Missing component name'')
   \<and> ComponentRequest (stand_in (JDict [(KStr ''checksum'', JStr ''no'')]) ''Zk3pQ9aa'')
        json_request (Some ''counter'') = Inl (AssertionError ''Missing data'')
   \<and> ComponentRequest (stand_in (JDict [(KStr ''data'', JDict [])]) ''Zk3pQ9aa'')
        json_request (Some ''counter'') = Inl (AssertionError ''Missing component id'')
   \<and> ComponentRequest (stand_in (JDict [(KStr ''data'', JDict []), (KStr ''id'', JStr ''c1'')])
        ''Zk3pQ9aa'') json_request (Some ''counter'') = Inl (AssertionError ''Missing epoch'')
   \<and> ComponentRequest (stand_in (counter_doc [(KStr ''checksum'', JStr ''no'')]) ''Zk3pQ9aa'')
        json_request (Some ''counter'') = Inl (AssertionError ''Checksum does not match'')"
proof -
  have r: "read_body (stand_in JNull ''Zk3pQ9aa'') json_request = Inl (AssertionError ''Invalid body'')"
    by (simp add: read_body_stand_in)
  have b: "truthy doc \<Longrightarrow> read_body (stand_in doc ''Zk3pQ9aa'') json_request = Inr doc" for doc
    by (simp add: read_body_stand_in)
  have v: "validate_checksum (generate_checksum (stand_in doc ''Zk3pQ9aa''))
             (counter_doc [(KStr ''checksum'', JStr ''no'')])
             (cr_data (counter_cr [(KStr ''checksum'', JStr ''no'')] [])) =
           Inl (AssertionError ''Checksum does not match'')" for doc
    by (simp add: validate_checksum_cases [OF checksum_of_counter_doc] stand_in_def)
  show ?thesis
    using validation_order [of "stand_in JNull ''Zk3pQ9aa''" json_request
            "AssertionError ''Invalid body''" None]
          validation_order [of "stand_in (JDict [(KStr ''checksum'', JStr ''no'')]) ''Zk3pQ9aa''"
            json_request _ None "JDict [(KStr ''checksum'', JStr ''no'')]"]
          validation_order [of "stand_in (JDict [(KStr ''checksum'', JStr ''no'')]) ''Zk3pQ9aa''"
            json_request _ "Some ''counter''" "JDict [(KStr ''checksum'', JStr ''no'')]"]
          validation_order [of "stand_in (JDict [(KStr ''data'', JDict [])]) ''Zk3pQ9aa''"
            json_request _ "Some ''counter''" "JDict [(KStr ''data'', JDict [])]" "JDict []" JNull]
          validation_order [of
            "stand_in (JDict [(KStr ''data'', JDict []), (KStr ''id'', JStr ''c1'')]) ''Zk3pQ9aa''"
            json_request _ "Some ''counter''"
            "JDict [(KStr ''data'', JDict []), (KStr ''id'', JStr ''c1'')]" "JDict []"
            "JStr ''c1''" "JStr []"]
          validation_order [of "stand_in (counter_doc [(KStr ''checksum'', JStr ''no'')]) ''Zk3pQ9aa''"
            json_request _ "Some ''counter''" "counter_doc [(KStr ''checksum'', JStr ''no'')]"
            _ _ _ "counter_cr [(KStr ''checksum'', JStr ''no'')] []"
            "AssertionError ''Checksum does not match''"]
    by (simp add: r b truthy_counter_doc check_fields_counter v name_given_def)
qed

lemma read_body_parse_irrelevant:
  "read_body (ext \<lparr> parse_call_method_name := parse, action_init := init \<rparr>) request =
     read_body ext request"
  by (simp add: read_body_def)

lemma ComponentRequest_Inr:
  assumes "ComponentRequest ext request component_name = Inr cr"
  shows "\<exists>body cr0. read_body ext request = Inr body
           \<and> check_fields request body component_name = Inr cr0
           \<and> validate_checksum (generate_checksum ext) body (cr_data cr0) = Inr ()
           \<and> classify_into ext cr0 = Inr cr"
proof -
  from assms obtain body where body: "read_body ext request = Inr body"
    by (auto simp: ComponentRequest_def then_do_eq_Inr)
  with assms obtain cr0 where cr0: "check_fields request body component_name = Inr cr0"
    by (auto simp: ComponentRequest_after_body then_do_eq_Inr)
  from assms have "then_do (validate_checksum (generate_checksum ext) body (cr_data cr0))
             (\<lambda>checked. classify_into ext cr0) = Inr cr"
    by (simp add: ComponentRequest_after_fields [OF body cr0])
  then have "validate_checksum (generate_checksum ext) body (cr_data cr0) = Inr ()"
    and "classify_into ext cr0 = Inr cr"
    by (auto simp: then_do_eq_Inr)
  with body cr0 show ?thesis by blast
qed

lemma ComponentRequest_counter:
  "ComponentRequest (stand_in (counter_doc extra) digest) json_request (Some ''counter'') =
     then_do (validate_checksum (\<lambda>data. Inr digest) (counter_doc extra)
                (JDict [(KStr ''count'', JInt 1)]))
       (\<lambda>checked. classify_into (stand_in (counter_doc extra) digest) (counter_cr extra []))"
proof -
  have body: "read_body (stand_in (counter_doc extra) digest) json_request =
      Inr (counter_doc extra)"
    by (simp add: read_body_stand_in truthy_counter_doc)
  have "generate_checksum (stand_in (counter_doc extra) digest) = (\<lambda>data. Inr digest)"
    and "cr_data (counter_cr extra []) = JDict [(KStr ''count'', JInt 1)]"
    by (simp_all add: stand_in_def counter_cr_def)
  with ComponentRequest_after_fields [OF body check_fields_counter] show ?thesis
    by simp
qed

lemma classify_into_Inr:
  assumes "classify_into ext cr0 = Inr cr"
  shows "cr_body cr = cr_body cr0" and "cr_data cr = cr_data cr0"
  using assms by (auto simp: classify_into_def then_do_eq_Inr)

section \<open>The checksum comes before the actions\<close>

text \<open>
  C8. Whenever the constructor returns a request, and with it classified actions, the
  checksum of its body has been validated against its data. Whenever reading the body,
  a required field or the checksum fails, the constructor fails with that error
  whatever the method name parser and the constructors of the action classes are: no
  action is classified on such a path.
\<close>

theorem checksum_before_classification:
  "(ComponentRequest ext request component_name = Inr cr \<longrightarrow>
      validate_checksum (generate_checksum ext) (cr_body cr) (cr_data cr) = Inr ())
 \<and> (read_body ext request = Inl e
      \<or> (\<exists>body. read_body ext request = Inr body \<and>
            (check_fields request body component_name = Inl e
             \<or> (\<exists>cr0. check_fields request body component_name = Inr cr0 \<and>
                   validate_checksum (generate_checksum ext) body (cr_data cr0) = Inl e))) \<longrightarrow>
      (\<forall>parse init.
          ComponentRequest (ext \<lparr> parse_call_method_name := parse, action_init := init \<rparr>)
            request component_name = Inl e))"
proof (intro conjI impI allI)
  assume "ComponentRequest ext request component_name = Inr cr"
  from ComponentRequest_Inr [OF this] obtain body cr0 where
    f: "check_fields request body component_name = Inr cr0"
    and v: "validate_checksum (generate_checksum ext) body (cr_data cr0) = Inr ()"
    and c: "classify_into ext cr0 = Inr cr"
    by blast
  from check_fields_Inr(1) [OF f] classify_into_Inr [OF c] v
  show "validate_checksum (generate_checksum ext) (cr_body cr) (cr_data cr) = Inr ()"
    by simp
next
  fix parse init
  assume h: "read_body ext request = Inl e
      \<or> (\<exists>body. read_body ext request = Inr body \<and>
            (check_fields request body component_name = Inl e
             \<or> (\<exists>cr0. check_fields request body component_name = Inr cr0 \<and>
                   validate_checksum (generate_checksum ext) body (cr_data cr0) = Inl e)))"
  let ?ext = "ext \<lparr> parse_call_method_name := parse, action_init := init \<rparr>"
  from h consider
      (body) "read_body ext request = Inl e"
    | (field) body where "read_body ext request = Inr body"
        "check_fields request body component_name = Inl e"
    | (checksum) body cr0 where "read_body ext request = Inr body"
        "check_fields request body component_name = Inr cr0"
        "validate_checksum (generate_checksum ext) body (cr_data cr0) = Inl e"
    by blast
  then show "ComponentRequest ?ext request component_name = Inl e"
  proof cases
    case body
    then show ?thesis
      by (simp add: ComponentRequest_def read_body_parse_irrelevant)
  next
    case field
    then have "read_body ?ext request = Inr body"
      by (simp add: read_body_parse_irrelevant)
    from ComponentRequest_after_body [OF this] field(2) show ?thesis
      by simp
  next
    case checksum
    then have "read_body ?ext request = Inr body"
      by (simp add: read_body_parse_irrelevant)
    from ComponentRequest_after_fields [OF this checksum(2)] checksum(3) show ?thesis
      by simp
  qed
qed

theorem checksum_before_classification_witness:
  "validate_checksum (\<lambda>data. Inr ''Zk3pQ9aa'') (counter_doc [(KStr ''checksum'', JStr ''Zk3pQ9aa'')])
       (JDict [(KStr ''count'', JInt 1)]) = Inr ()
   \<and> ComponentRequest
        (stand_in (counter_doc [(KStr ''checksum'', JStr ''bad''),
           (KStr ''actionQueue'', JList [JDict [(KStr ''type'', JStr ''syncInput'')]])]) ''Zk3pQ9aa''
         \<lparr> parse_call_method_name := (\<lambda>name. Inr ''$reset''),
           action_init := (\<lambda>a. Inl TypeError) \<rparr>)
        json_request (Some ''counter'') = Inl (AssertionError ''Checksum does not match'')"
proof -
  let ?good = "[(KStr ''checksum'', JStr ''Zk3pQ9aa'')]"
  let ?bad = "[(KStr ''checksum'', JStr ''bad''),
           (KStr ''actionQueue'', JList [JDict [(KStr ''type'', JStr ''syncInput'')]])]"
  have ok: "ComponentRequest (stand_in (counter_doc ?good) ''Zk3pQ9aa'') json_request
      (Some ''counter'') = Inr (counter_cr ?good [])"
    by (simp add: ComponentRequest_counter validate_checksum_cases [OF checksum_of_counter_doc]
        classify_into_def queue_of_counter_doc counter_cr_def)
  have body: "read_body (stand_in (counter_doc ?bad) ''Zk3pQ9aa'') json_request =
      Inr (counter_doc ?bad)"
    by (simp add: read_body_stand_in truthy_counter_doc)
  have bad: "validate_checksum (generate_checksum (stand_in (counter_doc ?bad) ''Zk3pQ9aa''))
      (counter_doc ?bad) (cr_data (counter_cr ?bad [])) =
      Inl (AssertionError ''Checksum does not match'')"
    by (simp add: validate_checksum_cases [OF checksum_of_counter_doc] stand_in_def)
  show ?thesis
    using checksum_before_classification [where ext = "stand_in (counter_doc ?good) ''Zk3pQ9aa''"
            and request = json_request and component_name = "Some ''counter''"
            and cr = "counter_cr ?good []"]
          checksum_before_classification [where ext = "stand_in (counter_doc ?bad) ''Zk3pQ9aa''"
            and request = json_request and component_name = "Some ''counter''"
            and e = "AssertionError ''Checksum does not match''"]
          ok body bad check_fields_counter [of ?bad]
    by (auto simp: counter_cr_def stand_in_def)
qed

section \<open>A body without an action queue\<close>

text \<open>
  C9. When the body has no \<open>actionQueue\<close> entry and the earlier checks pass, the
  constructor returns the request, with an empty action queue.
\<close>

theorem absent_action_queue:
  assumes "read_body ext request = Inr body"
      and "check_fields request body component_name = Inr cr"
      and "validate_checksum (generate_checksum ext) body (cr_data cr) = Inr ()"
      and "py_contains body ''actionQueue'' = Inr False"
  shows "ComponentRequest ext request component_name = Inr cr \<and> cr_action_queue cr = []"
proof -
  from check_fields_Inr [OF assms(2)] obtain d where
    d: "body = JDict d" and b: "cr_body cr = body" and q: "cr_action_queue cr = []"
    by blast
  from assms(4) d have "map_of d (KStr ''actionQueue'') = None"
    by (simp add: map_of_eq_None_iff)
  with d b have "classify_into ext cr = Inr (cr \<lparr> cr_action_queue := [] \<rparr>)"
    by (simp add: classify_into_def)
  moreover have "cr \<lparr> cr_action_queue := [] \<rparr> = cr"
    using q by simp
  ultimately show ?thesis
    using q by (simp add: ComponentRequest_after_fields [OF assms(1,2)] assms(3))
qed

theorem absent_action_queue_witness:
  "py_contains (counter_doc [(KStr ''checksum'', JStr ''Zk3pQ9aa'')]) ''actionQueue'' = Inr False
   \<and> ComponentRequest (stand_in (counter_doc [(KStr ''checksum'', JStr ''Zk3pQ9aa'')]) ''Zk3pQ9aa'')
        json_request (Some ''counter'') =
        Inr (counter_cr [(KStr ''checksum'', JStr ''Zk3pQ9aa'')] [])
   \<and> cr_action_queue (counter_cr [(KStr ''checksum'', JStr ''Zk3pQ9aa'')] []) = []"
proof -
  let ?e = "[(KStr ''checksum'', JStr ''Zk3pQ9aa'')]"
  have body: "read_body (stand_in (counter_doc ?e) ''Zk3pQ9aa'') json_request = Inr (counter_doc ?e)"
    by (simp add: read_body_stand_in truthy_counter_doc)
  have v: "validate_checksum (generate_checksum (stand_in (counter_doc ?e) ''Zk3pQ9aa''))
      (counter_doc ?e) (cr_data (counter_cr ?e [])) = Inr ()"
    by (simp add: validate_checksum_cases [OF checksum_of_counter_doc] stand_in_def)
  have q: "py_contains (counter_doc ?e) ''actionQueue'' = Inr False"
    by (simp add: counter_doc_def)
  show ?thesis
    using absent_action_queue [OF body check_fields_counter v q] q by simp
qed

lemma check_fields_dict:
  assumes "name_given component_name"
  shows "check_fields request (JDict d) component_name =
     (if null_or_absent d ''data'' then Inl (AssertionError ''Missing data'')
      else if falsy_or_absent d ''id'' then Inl (AssertionError ''Missing component id'')
      else if falsy_or_absent d ''epoch'' then Inl (AssertionError ''Missing epoch'')
      else Inr \<lparr> cr_body = JDict d, cr_request = request, cr_name = component_name,
                 cr_data = the (map_of d (KStr ''data'')),
                 cr_id = the (map_of d (KStr ''id'')),
                 cr_epoch = the (map_of d (KStr ''epoch'')),
                 cr_key = (case map_of d (KStr ''key'') of None \<Rightarrow> JStr [] | Some v \<Rightarrow> v),
                 cr_hash = (case map_of d (KStr ''hash'') of None \<Rightarrow> JStr [] | Some v \<Rightarrow> v),
                 cr_action_queue = [] \<rparr>)"
  using assms
  by (simp add: check_fields_def null_or_absent_def falsy_or_absent_def split: option.splits)

section \<open>Emptiness tests of the required fields\<close>

text \<open>
  C10. With a component name and a dict as body, "Missing data" is raised exactly
  when \<open>data\<close> is absent or null: an empty dict as data passes, and the checksum is
  then validated against it. "Missing component id" and "Missing epoch" are raised
  exactly when the field is absent or false as a Python value, the empty string
  included.
\<close>

theorem asymmetric_emptiness:
  assumes "name_given component_name"
  shows "(check_fields request (JDict d) component_name = Inl (AssertionError ''Missing data'')
            \<longleftrightarrow> null_or_absent d ''data'')
       \<and> (\<not> null_or_absent d ''data'' \<longrightarrow>
            (check_fields request (JDict d) component_name =
               Inl (AssertionError ''Missing component id'') \<longleftrightarrow> falsy_or_absent d ''id''))
       \<and> (\<not> null_or_absent d ''data'' \<and> \<not> falsy_or_absent d ''id'' \<longrightarrow>
            (check_fields request (JDict d) component_name =
               Inl (AssertionError ''Missing epoch'') \<longleftrightarrow> falsy_or_absent d ''epoch''))
       \<and> (map_of d (KStr ''data'') = Some (JDict []) \<longrightarrow> \<not> null_or_absent d ''data'')
       \<and> (map_of d (KStr ''id'') = Some (JStr []) \<longrightarrow> falsy_or_absent d ''id'')
       \<and> (map_of d (KStr ''epoch'') = Some (JStr []) \<longrightarrow> falsy_or_absent d ''epoch'')
       \<and> (map_of d (KStr ''data'') = Some (JDict [])
            \<and> \<not> falsy_or_absent d ''id'' \<and> \<not> falsy_or_absent d ''epoch''
            \<and> read_body ext request = Inr (JDict d) \<longrightarrow>
            (\<exists>cr. check_fields request (JDict d) component_name = Inr cr
                 \<and> cr_data cr = JDict []
                 \<and> ComponentRequest ext request component_name =
                     then_do (validate_checksum (generate_checksum ext) (JDict d) (JDict []))
                       (\<lambda>checked. classify_into ext cr)))"
proof -
  note cf = check_fields_dict [OF assms, of request d]
  have 1: "check_fields request (JDict d) component_name = Inl (AssertionError ''Missing data'')
            \<longleftrightarrow> null_or_absent d ''data''"
    by (simp add: cf)
  have 2: "\<not> null_or_absent d ''data'' \<Longrightarrow>
            (check_fields request (JDict d) component_name =
               Inl (AssertionError ''Missing component id'') \<longleftrightarrow> falsy_or_absent d ''id'')"
    by (simp add: cf)
  have 3: "\<not> null_or_absent d ''data'' \<and> \<not> falsy_or_absent d ''id'' \<Longrightarrow>
            (check_fields request (JDict d) component_name =
               Inl (AssertionError ''Missing epoch'') \<longleftrightarrow> falsy_or_absent d ''epoch'')"
    by (simp add: cf)
  have 4: "map_of d (KStr ''data'') = Some (JDict []) \<Longrightarrow> \<not> null_or_absent d ''data''"
    by (simp add: null_or_absent_def)
  have 5: "map_of d (KStr k) = Some (JStr []) \<Longrightarrow> falsy_or_absent d k" for k
    by (simp add: falsy_or_absent_def)
  have 6: "\<exists>cr. check_fields request (JDict d) component_name = Inr cr
                 \<and> cr_data cr = JDict []
                 \<and> ComponentRequest ext request component_name =
                     then_do (validate_checksum (generate_checksum ext) (JDict d) (JDict []))
                       (\<lambda>checked. classify_into ext cr)"
    if h: "map_of d (KStr ''data'') = Some (JDict [])
            \<and> \<not> falsy_or_absent d ''id'' \<and> \<not> falsy_or_absent d ''epoch''
            \<and> read_body ext request = Inr (JDict d)"
  proof -
    from h 4 obtain cr where cr: "check_fields request (JDict d) component_name = Inr cr"
      and data: "cr_data cr = JDict []"
      by (simp add: cf)
    from h have "read_body ext request = Inr (JDict d)" by simp
    from ComponentRequest_after_fields [OF this cr] cr data show ?thesis
      by simp
  qed
  from 1 2 3 4 5 6 show ?thesis
    by blast
qed

theorem asymmetric_emptiness_witness:
  "check_fields json_request
      (JDict [(KStr ''data'', JDict []), (KStr ''id'', JStr []), (KStr ''epoch'', JStr [])])
      (Some ''counter'') = Inl (AssertionError ''Missing component id'')
   \<and> check_fields json_request
      (JDict [(KStr ''data'', JDict []), (KStr ''id'', JStr ''c1''), (KStr ''epoch'', JStr [])])
      (Some ''counter'') = Inl (AssertionError ''Missing epoch'')
   \<and> check_fields json_request
      (JDict [(KStr ''data'', JNull), (KStr ''id'', JStr ''c1''), (KStr ''epoch'', JStr ''17'')])
      (Some ''counter'') = Inl (AssertionError ''Missing data'')
   \<and> ComponentRequest
        (stand_in (JDict [(KStr ''data'', JDict []), (KStr ''id'', JStr ''c1''),
                          (KStr ''epoch'', JStr ''17'')]) ''Zk3pQ9aa'')
        json_request (Some ''counter'') = Inl (AssertionError ''Missing checksum'')"
proof -
  have n: "name_given (Some ''counter'')"
    by (simp add: name_given_def)
  let ?d1 = "[(KStr ''data'', JDict []), (KStr ''id'', JStr []), (KStr ''epoch'', JStr [])]"
  let ?d2 = "[(KStr ''data'', JDict []), (KStr ''id'', JStr ''c1''), (KStr ''epoch'', JStr [])]"
  let ?d3 = "[(KStr ''data'', JNull), (KStr ''id'', JStr ''c1''), (KStr ''epoch'', JStr ''17'')]"
  let ?d4 = "[(KStr ''data'', JDict []), (KStr ''id'', JStr ''c1''), (KStr ''epoch'', JStr ''17'')]"
  have body: "read_body (stand_in (JDict ?d4) ''Zk3pQ9aa'') json_request = Inr (JDict ?d4)"
    by (simp add: read_body_stand_in)
  have v: "validate_checksum gen (JDict ?d4) (JDict []) = Inl (AssertionError ''Missing checksum'')"
    for gen
    by (simp add: validate_checksum_def)
  show ?thesis
    using asymmetric_emptiness [OF n, of json_request ?d1]
          asymmetric_emptiness [OF n, of json_request ?d2]
          asymmetric_emptiness [OF n, of json_request ?d3]
          asymmetric_emptiness [OF n, of json_request ?d4 "stand_in (JDict ?d4) ''Zk3pQ9aa''"]
          body
    by (auto simp: null_or_absent_def falsy_or_absent_def v)
qed

section \<open>Kinds of failure\<close>

text \<open>
  C6, as the code has it. Malformed text (the decoder raises \<open>JSONDecodeError\<close>, on the
  whole body or on the \<open>actionQueue\<close> field of a form) makes the constructor raise
  \<open>UnicornViewError\<close>, whose class is not the class of any error of a required field.
  An empty decoded body raises \<open>AssertionError\<close> with the message "Invalid body":
  the class of the errors of the required fields, another message.
\<close>

theorem failure_kinds:
  "((\<not> is_multipart request \<and> loads ext (raw_body request) = Inl JSONDecodeError)
      \<or> (is_multipart request \<and> parse_multipart_data (loads ext) request = Inl JSONDecodeError) \<longrightarrow>
      ComponentRequest ext request component_name =
        Inl (UnicornViewError ''Body could not be parsed''))
 \<and> ((\<not> is_multipart request \<and> loads ext (raw_body request) = Inr body)
      \<or> (is_multipart request \<and> parse_multipart_data (loads ext) request = Inr body) \<longrightarrow>
      \<not> truthy body \<longrightarrow>
      ComponentRequest ext request component_name = Inl (AssertionError ''Invalid body''))
 \<and> (read_body ext request = Inr (JDict d)
      \<and> (\<not> name_given component_name \<or> null_or_absent d ''data'' \<or> falsy_or_absent d ''id''
            \<or> falsy_or_absent d ''epoch'') \<longrightarrow>
      (\<exists>e. missing_field e \<and> ComponentRequest ext request component_name = Inl e))
 \<and> (missing_field e \<longrightarrow>
      class_of e = CAssertionError
      \<and> class_of e \<noteq> class_of (UnicornViewError ''Body could not be parsed'')
      \<and> class_of e = class_of (AssertionError ''Invalid body'')
      \<and> e \<noteq> AssertionError ''Invalid body'')"
proof (intro conjI impI)
  assume "(\<not> is_multipart request \<and> loads ext (raw_body request) = Inl JSONDecodeError)
      \<or> (is_multipart request \<and> parse_multipart_data (loads ext) request = Inl JSONDecodeError)"
  then have "read_body ext request = Inl (UnicornViewError ''Body could not be parsed'')"
    using read_body_failures [of request ext] by blast
  then show "ComponentRequest ext request component_name =
        Inl (UnicornViewError ''Body could not be parsed'')"
    by (simp add: ComponentRequest_def)
next
  assume "(\<not> is_multipart request \<and> loads ext (raw_body request) = Inr body)
      \<or> (is_multipart request \<and> parse_multipart_data (loads ext) request = Inr body)"
    and "\<not> truthy body"
  then have "read_body ext request = Inl (AssertionError ''Invalid body'')"
    using read_body_failures [of request ext body] by blast
  then show "ComponentRequest ext request component_name = Inl (AssertionError ''Invalid body'')"
    by (simp add: ComponentRequest_def)
next
  assume h: "read_body ext request = Inr (JDict d)
      \<and> (\<not> name_given component_name \<or> null_or_absent d ''data'' \<or> falsy_or_absent d ''id''
            \<or> falsy_or_absent d ''epoch'')"
  then have body: "read_body ext request = Inr (JDict d)"
    by simp
  have "\<exists>e. missing_field e \<and> check_fields request (JDict d) component_name = Inl e"
  proof (cases "name_given component_name")
    case True
    with h show ?thesis
      by (auto simp: check_fields_dict missing_field_def)
  next
    case False
    then show ?thesis
      by (simp add: check_fields_def missing_field_def)
  qed
  then show "\<exists>e. missing_field e \<and> ComponentRequest ext request component_name = Inl e"
    by (auto simp: ComponentRequest_after_body [OF body])
next
  assume "missing_field e"
  then show "class_of e = CAssertionError"
    and "class_of e \<noteq> class_of (UnicornViewError ''Body could not be parsed'')"
    and "class_of e = class_of (AssertionError ''Invalid body'')"
    and "e \<noteq> AssertionError ''Invalid body''"
    by (auto simp: missing_field_def)
qed

theorem failure_kinds_witness:
  "ComponentRequest \<lparr> loads = (\<lambda>text. Inl JSONDecodeError), generate_checksum = (\<lambda>data. Inr ''Zk3pQ9aa''),
       parse_call_method_name = bare_name, action_init = (\<lambda>a. Inr ()) \<rparr>
       json_request (Some ''counter'') =
     Inl (UnicornViewError ''Body could not be parsed'')
   \<and> ComponentRequest (stand_in (JList []) ''Zk3pQ9aa'') json_request (Some ''counter'') =
       Inl (AssertionError ''Invalid body'')
   \<and> ComponentRequest (stand_in (JDict [(KStr ''id'', JStr ''c1'')]) ''Zk3pQ9aa'') json_request
       (Some ''counter'') = Inl (AssertionError ''Missing data'')
   \<and> class_of (AssertionError ''Missing data'') \<noteq> class_of (UnicornViewError ''Body could not be parsed'')"
proof -
  let ?ext = "\<lparr> loads = (\<lambda>text. Inl JSONDecodeError), generate_checksum = (\<lambda>data. Inr ''Zk3pQ9aa''),
       parse_call_method_name = bare_name, action_init = (\<lambda>a. Inr ()) \<rparr>"
  let ?d = "[(KStr ''id'', JStr ''c1'')]"
  have j: "\<not> is_multipart json_request"
    by (simp add: is_multipart_def json_request_def)
  have l: "loads (stand_in doc ''Zk3pQ9aa'') (raw_body json_request) = Inr doc" for doc
    by (simp add: stand_in_def)
  have body: "read_body (stand_in (JDict ?d) ''Zk3pQ9aa'') json_request = Inr (JDict ?d)"
    by (simp add: read_body_stand_in)
  have absent: "null_or_absent ?d ''data''"
    by (simp add: null_or_absent_def)
  have n: "name_given (Some ''counter'')"
    by (simp add: name_given_def)
  have m: "missing_field (AssertionError ''Missing data'')"
    by (simp add: missing_field_def)
  have cf: "check_fields json_request (JDict ?d) (Some ''counter'') = Inl (AssertionError ''Missing data'')"
    by (simp add: check_fields_dict [OF n] absent)
  show ?thesis
    using failure_kinds [where ext = ?ext and request = json_request
            and component_name = "Some ''counter''"]
          failure_kinds [where ext = "stand_in (JList []) ''Zk3pQ9aa''" and request = json_request
            and component_name = "Some ''counter''" and body = "JList []"]
          failure_kinds [where ext = "stand_in (JDict ?d) ''Zk3pQ9aa''" and request = json_request
            and component_name = "Some ''counter''" and d = ?d
            and e = "AssertionError ''Missing data''"]
          j l body absent m
    by (simp add: ComponentRequest_after_body [OF body] cf)
qed

theorem failure_kinds_counterexample:
  "ComponentRequest (stand_in (JDict []) ''Zk3pQ9aa'') json_request (Some ''counter'') =
     Inl (AssertionError ''Invalid body'')
   \<and> ComponentRequest (stand_in (JDict [(KStr ''id'', JStr ''c1'')]) ''Zk3pQ9aa'') json_request
       (Some ''counter'') = Inl (AssertionError ''Missing data'')
   \<and> class_of (AssertionError ''Invalid body'') = class_of (AssertionError ''Missing data'')"
proof -
  have n: "name_given (Some ''counter'')"
    by (simp add: name_given_def)
  have "read_body (stand_in (JDict []) ''Zk3pQ9aa'') json_request = Inl (AssertionError ''Invalid body'')"
    by (simp add: read_body_stand_in)
  then have 1: "ComponentRequest (stand_in (JDict []) ''Zk3pQ9aa'') json_request (Some ''counter'') =
     Inl (AssertionError ''Invalid body'')"
    by (simp add: ComponentRequest_def)
  have body: "read_body (stand_in (JDict [(KStr ''id'', JStr ''c1'')]) ''Zk3pQ9aa'') json_request =
     Inr (JDict [(KStr ''id'', JStr ''c1'')])"
    by (simp add: read_body_stand_in)
  have 2: "ComponentRequest (stand_in (JDict [(KStr ''id'', JStr ''c1'')]) ''Zk3pQ9aa'') json_request
       (Some ''counter'') = Inl (AssertionError ''Missing data'')"
    by (simp add: ComponentRequest_after_body [OF body] check_fields_dict [OF n] null_or_absent_def)
  from 1 2 show ?thesis
    by simp
qed

lemma new_action_constructs: "constructs ext a \<Longrightarrow> new_action ext a = Inr a"
  by (cases "action_init ext a") (simp_all add: new_action_def constructs_def)

lemma new_method_action:
  "(if m = ''$refresh'' then new_action ext (Refresh e)
    else if m = ''$reset'' then new_action ext (Reset e)
    else if m = ''$toggle'' then new_action ext (Toggle e)
    else new_action ext (CallMethod e)) = new_action ext (method_action m e)"
  by (simp add: method_action_def)

lemma classify_action_dict:
  "classify_action ext (JDict d) =
     (if type_of_entry (JDict d) = JStr ''syncInput'' then new_action ext (SyncInput (JDict d))
      else if type_of_entry (JDict d) = JStr ''callMethod'' then
        then_do (py_get (payload_of_entry (JDict d)) ''name'' (JStr [])) (\<lambda>name.
        then_do (parse_call_method_name ext name) (\<lambda>method_name.
          new_action ext (method_action method_name (JDict d))))
      else new_action ext (Action (JDict d)))"
  by (simp add: classify_action_def type_of_entry_def payload_of_entry_def new_method_action)

lemma classify_action_other:
  assumes "is_dict entry"
      and "type_of_entry entry \<noteq> JStr ''syncInput''"
      and "type_of_entry entry \<noteq> JStr ''callMethod''"
  shows "classify_action ext entry = new_action ext (Action entry)"
proof -
  from assms(1) obtain d where "entry = JDict d"
    by (cases entry) (simp_all add: is_dict_def)
  with assms(2,3) show ?thesis
    by (simp add: classify_action_dict)
qed

lemma classify_action_raw:
  assumes "raw_action ext entry"
  shows "\<exists>a. classify_action ext entry = Inr a \<and> action_data a = entry
     \<and> (type_of_entry entry = JStr ''syncInput'' \<longrightarrow> a = SyncInput entry)
     \<and> (type_of_entry entry = JStr ''callMethod'' \<longrightarrow>
          (\<exists>m. parse_call_method_name ext (call_name entry) = Inr m
             \<and> (m = ''$refresh'' \<longrightarrow> a = Refresh entry)
             \<and> (m = ''$reset'' \<longrightarrow> a = Reset entry)
             \<and> (m = ''$toggle'' \<longrightarrow> a = Toggle entry)
             \<and> (m \<noteq> ''$refresh'' \<and> m \<noteq> ''$reset'' \<and> m \<noteq> ''$toggle'' \<longrightarrow> a = CallMethod entry)))
     \<and> (type_of_entry entry \<noteq> JStr ''syncInput'' \<and> type_of_entry entry \<noteq> JStr ''callMethod'' \<longrightarrow>
          a = Action entry)"
proof -
  from assms obtain d where d: "entry = JDict d"
    by (cases entry) (simp_all add: raw_action_def is_dict_def)
  consider (sync) "type_of_entry entry = JStr ''syncInput''"
    | (call) "type_of_entry entry = JStr ''callMethod''"
    | (other) "type_of_entry entry \<noteq> JStr ''syncInput''" "type_of_entry entry \<noteq> JStr ''callMethod''"
    by blast
  then show ?thesis
  proof cases
    case sync
    with assms have "constructs ext (SyncInput entry)"
      by (simp add: raw_action_def)
    with sync show ?thesis
      by (simp add: d classify_action_dict new_action_constructs)
  next
    case call
    with assms obtain p where p: "payload_of_entry entry = JDict p"
      by (cases "payload_of_entry entry") (simp_all add: raw_action_def is_dict_def)
    from call assms obtain m where m: "parse_call_method_name ext (call_name entry) = Inr m"
      and c: "constructs ext (method_action m entry)"
      by (cases "parse_call_method_name ext (call_name entry)") (simp_all add: raw_action_def)
    have n: "py_get (payload_of_entry entry) ''name'' (JStr []) = Inr (call_name entry)"
      by (simp add: p call_name_def)
    have "classify_action ext entry = Inr (method_action m entry)"
      using call m n c unfolding d classify_action_dict
      by (simp add: new_action_constructs)
    with call m show ?thesis
      by (simp add: method_action_def)
  next
    case other
    with assms have "constructs ext (Action entry)"
      by (simp add: raw_action_def)
    with other show ?thesis
      by (simp add: d classify_action_dict new_action_constructs)
  qed
qed

lemma classify_queue_raw:
  assumes "\<forall>entry \<in> set entries. raw_action ext entry"
  shows "\<exists>actions. classify_queue ext entries queue = Inr (queue @ actions)
     \<and> length actions = length entries
     \<and> (\<forall>i < length entries. classify_action ext (entries ! i) = Inr (actions ! i))"
  using assms
proof (induction entries arbitrary: queue)
  case Nil
  then show ?case by simp
next
  case (Cons entry entries)
  from Cons.prems have "raw_action ext entry"
    by simp
  from classify_action_raw [OF this] obtain a where a: "classify_action ext entry = Inr a"
    by blast
  from Cons.prems have "\<forall>entry \<in> set entries. raw_action ext entry"
    by simp
  from Cons.IH [OF this, of "queue @ [a]"] obtain actions where
    q: "classify_queue ext entries (queue @ [a]) = Inr ((queue @ [a]) @ actions)"
    and l: "length actions = length entries"
    and i: "\<forall>i < length entries. classify_action ext (entries ! i) = Inr (actions ! i)"
    by blast
  have "classify_queue ext (entry # entries) queue = Inr (queue @ (a # actions))"
    using a q by simp
  moreover have "length (a # actions) = length (entry # entries)"
    using l by simp
  moreover have "\<forall>i < length (entry # entries).
      classify_action ext ((entry # entries) ! i) = Inr ((a # actions) ! i)"
    using a i by (auto simp: nth_Cons split: nat.splits)
  ultimately show ?case
    by blast
qed

section \<open>The action classifier\<close>

text \<open>
  C3. Let the body be read, the required fields be present and the checksum be valid,
  and let every entry of the action queue be a raw action payload: a mapping, for
  the type \<open>callMethod\<close> one whose payload is a mapping with a name that the method name
  parser accepts, and one that the constructor of its class accepts. Then the
  constructor returns the request with an action queue that holds exactly one action
  for each entry, in the order of the queue, each built from its entry: \<open>SyncInput\<close>
  for the type \<open>syncInput\<close>; for \<open>callMethod\<close>, \<open>Refresh\<close>, \<open>Reset\<close> or \<open>Toggle\<close> when the
  parsed bare name is \<open>$refresh\<close>, \<open>$reset\<close> or \<open>$toggle\<close>, and \<open>CallMethod\<close>
  otherwise; the base class \<open>Action\<close> for every other type. The classifier itself
  rejects no type: a mapping of any other type goes to the constructor of \<open>Action\<close>
  as it is.
\<close>

theorem classification:
  assumes "read_body ext request = Inr body"
      and "check_fields request body component_name = Inr cr"
      and "validate_checksum (generate_checksum ext) body (cr_data cr) = Inr ()"
      and "py_get body ''actionQueue'' (JList []) = Inr (JList entries)"
      and "\<forall>entry \<in> set entries. raw_action ext entry"
  shows "(\<exists>actions.
        ComponentRequest ext request component_name = Inr (cr \<lparr> cr_action_queue := actions \<rparr>)
      \<and> length actions = length entries
      \<and> (\<forall>i < length entries.
          action_data (actions ! i) = entries ! i
        \<and> (type_of_entry (entries ! i) = JStr ''syncInput'' \<longrightarrow>
             actions ! i = SyncInput (entries ! i))
        \<and> (type_of_entry (entries ! i) = JStr ''callMethod'' \<longrightarrow>
             (\<exists>m. parse_call_method_name ext (call_name (entries ! i)) = Inr m
                \<and> (m = ''$refresh'' \<longrightarrow> actions ! i = Refresh (entries ! i))
                \<and> (m = ''$reset'' \<longrightarrow> actions ! i = Reset (entries ! i))
                \<and> (m = ''$toggle'' \<longrightarrow> actions ! i = Toggle (entries ! i))
                \<and> (m \<noteq> ''$refresh'' \<and> m \<noteq> ''$reset'' \<and> m \<noteq> ''$toggle'' \<longrightarrow>
                     actions ! i = CallMethod (entries ! i))))
        \<and> (type_of_entry (entries ! i) \<noteq> JStr ''syncInput''
             \<and> type_of_entry (entries ! i) \<noteq> JStr ''callMethod'' \<longrightarrow>
             actions ! i = Action (entries ! i))))
    \<and> (\<forall>entry. is_dict entry \<and> type_of_entry entry \<noteq> JStr ''syncInput''
          \<and> type_of_entry entry \<noteq> JStr ''callMethod'' \<longrightarrow>
          classify_action ext entry = new_action ext (Action entry))"
proof (intro conjI allI impI)
  from classify_queue_raw [OF assms(5), of "[]"] obtain actions where
    q: "classify_queue ext entries [] = Inr actions"
    and l: "length actions = length entries"
    and c: "\<forall>i < length entries. classify_action ext (entries ! i) = Inr (actions ! i)"
    by auto
  have "cr_body cr = body"
    by (rule check_fields_Inr(1) [OF assms(2)])
  with assms(4) q have "classify_into ext cr = Inr (cr \<lparr> cr_action_queue := actions \<rparr>)"
    by (simp add: classify_into_def)
  then have r: "ComponentRequest ext request component_name =
      Inr (cr \<lparr> cr_action_queue := actions \<rparr>)"
    by (simp add: ComponentRequest_after_fields [OF assms(1,2)] assms(3))
  have t: "action_data (actions ! i) = entries ! i
        \<and> (type_of_entry (entries ! i) = JStr ''syncInput'' \<longrightarrow>
             actions ! i = SyncInput (entries ! i))
        \<and> (type_of_entry (entries ! i) = JStr ''callMethod'' \<longrightarrow>
             (\<exists>m. parse_call_method_name ext (call_name (entries ! i)) = Inr m
                \<and> (m = ''$refresh'' \<longrightarrow> actions ! i = Refresh (entries ! i))
                \<and> (m = ''$reset'' \<longrightarrow> actions ! i = Reset (entries ! i))
                \<and> (m = ''$toggle'' \<longrightarrow> actions ! i = Toggle (entries ! i))
                \<and> (m \<noteq> ''$refresh'' \<and> m \<noteq> ''$reset'' \<and> m \<noteq> ''$toggle'' \<longrightarrow>
                     actions ! i = CallMethod (entries ! i))))
        \<and> (type_of_entry (entries ! i) \<noteq> JStr ''syncInput''
             \<and> type_of_entry (entries ! i) \<noteq> JStr ''callMethod'' \<longrightarrow>
             actions ! i = Action (entries ! i))" if i: "i < length entries" for i
  proof -
    from i assms(5) have "raw_action ext (entries ! i)"
      by simp
    from classify_action_raw [OF this] c i show ?thesis
      by auto
  qed
  from r l t show "\<exists>actions.
        ComponentRequest ext request component_name = Inr (cr \<lparr> cr_action_queue := actions \<rparr>)
      \<and> length actions = length entries
      \<and> (\<forall>i < length entries.
          action_data (actions ! i) = entries ! i
        \<and> (type_of_entry (entries ! i) = JStr ''syncInput'' \<longrightarrow>
             actions ! i = SyncInput (entries ! i))
        \<and> (type_of_entry (entries ! i) = JStr ''callMethod'' \<longrightarrow>
             (\<exists>m. parse_call_method_name ext (call_name (entries ! i)) = Inr m
                \<and> (m = ''$refresh'' \<longrightarrow> actions ! i = Refresh (entries ! i))
                \<and> (m = ''$reset'' \<longrightarrow> actions ! i = Reset (entries ! i))
                \<and> (m = ''$toggle'' \<longrightarrow> actions ! i = Toggle (entries ! i))
                \<and> (m \<noteq> ''$refresh'' \<and> m \<noteq> ''$reset'' \<and> m \<noteq> ''$toggle'' \<longrightarrow>
                     actions ! i = CallMethod (entries ! i))))
        \<and> (type_of_entry (entries ! i) \<noteq> JStr ''syncInput''
             \<and> type_of_entry (entries ! i) \<noteq> JStr ''callMethod'' \<longrightarrow>
             actions ! i = Action (entries ! i)))"
    by blast
next
  fix entry
  assume "is_dict entry \<and> type_of_entry entry \<noteq> JStr ''syncInput''
          \<and> type_of_entry entry \<noteq> JStr ''callMethod''"
  then show "classify_action ext entry = new_action ext (Action entry)"
    by (simp add: classify_action_other)
qed


theorem classification_witness:
  "ComponentRequest
     (stand_in (counter_doc [(KStr ''checksum'', JStr ''Zk3pQ9aa''),
        (KStr ''actionQueue'',
         JList [JDict [(KStr ''type'', JStr ''callMethod''),
                       (KStr ''payload'', JDict [(KStr ''name'', JStr ''$toggle(show)'')])],
                JDict [(KStr ''type'', JStr ''callMethod''),
                       (KStr ''payload'', JDict [(KStr ''name'', JStr ''save'')])],
                JDict [(KStr ''type'', JStr ''syncInput''),
                       (KStr ''payload'', JDict [(KStr ''name'', JStr ''count''), (KStr ''value'', JInt 2)])],
                JDict [(KStr ''type'', JStr ''unknownThing'')]])]) ''Zk3pQ9aa'')
     json_request (Some ''counter'') =
   Inr (counter_cr [(KStr ''checksum'', JStr ''Zk3pQ9aa''),
        (KStr ''actionQueue'',
         JList [JDict [(KStr ''type'', JStr ''callMethod''),
                       (KStr ''payload'', JDict [(KStr ''name'', JStr ''$toggle(show)'')])],
                JDict [(KStr ''type'', JStr ''callMethod''),
                       (KStr ''payload'', JDict [(KStr ''name'', JStr ''save'')])],
                JDict [(KStr ''type'', JStr ''syncInput''),
                       (KStr ''payload'', JDict [(KStr ''name'', JStr ''count''), (KStr ''value'', JInt 2)])],
                JDict [(KStr ''type'', JStr ''unknownThing'')]])]
     [Toggle (JDict [(KStr ''type'', JStr ''callMethod''),
                    (KStr ''payload'', JDict [(KStr ''name'', JStr ''$toggle(show)'')])]),
      CallMethod (JDict [(KStr ''type'', JStr ''callMethod''),
                    (KStr ''payload'', JDict [(KStr ''name'', JStr ''save'')])]),
      SyncInput (JDict [(KStr ''type'', JStr ''syncInput''),
                    (KStr ''payload'', JDict [(KStr ''name'', JStr ''count''), (KStr ''value'', JInt 2)])]),
      Action (JDict [(KStr ''type'', JStr ''unknownThing'')])])"
proof -
  let ?e0 = "JDict [(KStr ''type'', JStr ''callMethod''),
                    (KStr ''payload'', JDict [(KStr ''name'', JStr ''$toggle(show)'')])]"
  let ?e1 = "JDict [(KStr ''type'', JStr ''callMethod''),
                    (KStr ''payload'', JDict [(KStr ''name'', JStr ''save'')])]"
  let ?e2 = "JDict [(KStr ''type'', JStr ''syncInput''),
                    (KStr ''payload'', JDict [(KStr ''name'', JStr ''count''), (KStr ''value'', JInt 2)])]"
  let ?e3 = "JDict [(KStr ''type'', JStr ''unknownThing'')]"
  let ?es = "[?e0, ?e1, ?e2, ?e3]"
  let ?extra = "[(KStr ''checksum'', JStr ''Zk3pQ9aa''), (KStr ''actionQueue'', JList ?es)]"
  let ?ext = "stand_in (counter_doc ?extra) ''Zk3pQ9aa''"
  have t: "type_of_entry ?e0 = JStr ''callMethod''" "type_of_entry ?e1 = JStr ''callMethod''"
    "type_of_entry ?e2 = JStr ''syncInput''" "type_of_entry ?e3 = JStr ''unknownThing''"
    by (simp_all add: type_of_entry_def)
  have n: "parse_call_method_name ?ext (call_name ?e0) = Inr ''$toggle''"
    "parse_call_method_name ?ext (call_name ?e1) = Inr ''save''"
    by (simp_all add: call_name_def payload_of_entry_def bare_name_def stand_in_def)
  have p: "is_dict (payload_of_entry ?e0)" "is_dict (payload_of_entry ?e1)"
    by (simp_all add: payload_of_entry_def is_dict_def)
  have d: "is_dict ?e0" "is_dict ?e1" "is_dict ?e2" "is_dict ?e3"
    by (simp_all add: is_dict_def)
  have c: "constructs ?ext a" for a
    by (simp add: constructs_def stand_in_def)
  have h: "\<forall>entry \<in> set ?es. raw_action ?ext entry"
    by (simp add: raw_action_def t n p d c)
  have body: "read_body ?ext json_request = Inr (counter_doc ?extra)"
    by (simp add: read_body_stand_in truthy_counter_doc)
  have v: "validate_checksum (generate_checksum ?ext) (counter_doc ?extra)
      (cr_data (counter_cr ?extra [])) = Inr ()"
    by (simp add: validate_checksum_cases [OF checksum_of_counter_doc] stand_in_def)
  have q: "py_get (counter_doc ?extra) ''actionQueue'' (JList []) = Inr (JList ?es)"
    by (simp add: queue_of_counter_doc)
  from classification [OF body check_fields_counter v q h, THEN conjunct1] obtain actions where
    a: "ComponentRequest ?ext json_request (Some ''counter'') =
          Inr ((counter_cr ?extra []) \<lparr> cr_action_queue := actions \<rparr>)"
    and l: "length actions = length ?es"
    and i: "\<forall>i < length ?es.
          action_data (actions ! i) = ?es ! i
        \<and> (type_of_entry (?es ! i) = JStr ''syncInput'' \<longrightarrow>
             actions ! i = SyncInput (?es ! i))
        \<and> (type_of_entry (?es ! i) = JStr ''callMethod'' \<longrightarrow>
             (\<exists>m. parse_call_method_name ?ext (call_name (?es ! i)) = Inr m
                \<and> (m = ''$refresh'' \<longrightarrow> actions ! i = Refresh (?es ! i))
                \<and> (m = ''$reset'' \<longrightarrow> actions ! i = Reset (?es ! i))
                \<and> (m = ''$toggle'' \<longrightarrow> actions ! i = Toggle (?es ! i))
                \<and> (m \<noteq> ''$refresh'' \<and> m \<noteq> ''$reset'' \<and> m \<noteq> ''$toggle'' \<longrightarrow>
                     actions ! i = CallMethod (?es ! i))))
        \<and> (type_of_entry (?es ! i) \<noteq> JStr ''syncInput''
             \<and> type_of_entry (?es ! i) \<noteq> JStr ''callMethod'' \<longrightarrow>
             actions ! i = Action (?es ! i))"
    by blast
  have 0: "actions ! 0 = Toggle ?e0"
    using i [THEN spec, of 0] by (simp add: t n)
  have 1: "actions ! 1 = CallMethod ?e1"
    using i [THEN spec, of 1] by (simp add: t n)
  have 2: "actions ! 2 = SyncInput ?e2"
    using i [THEN spec, of 2] by (simp add: t)
  have 3: "actions ! 3 = Action ?e3"
    using i [THEN spec, of 3] by (simp add: t)
  have "actions = [actions ! 0, actions ! 1, actions ! 2, actions ! 3]"
    using l by (auto simp: list_eq_iff_nth_eq nth_Cons numeral_2_eq_2 numeral_3_eq_3 split: nat.splits)
  with 0 1 2 3 have "actions = [Toggle ?e0, CallMethod ?e1, SyncInput ?e2, Action ?e3]"
    by simp
  with a show ?thesis
    by (simp add: counter_cr_def)
qed

section \<open>Facts about the path tree builder\<close>

lemma dict_set_twice [simp]: "dict_set (dict_set d k v) k w = dict_set d k w"
  by (induction d) auto

lemma map_of_dict_set [simp]: "map_of (dict_set d k v) k = Some v"
  by (induction d) auto

lemma dict_set_fresh: "map_of d k = None \<Longrightarrow> dict_set d k v = d @ [(k, v)]"
  by (induction d) (auto split: if_splits)

lemma contains_dict: "py_contains (JDict d) k = Inr (map_of d (KStr k) \<noteq> None)"
  by (simp add: map_of_eq_None_iff)

lemma pad_list:
  "pad (JList xs) (int n) filler = Inr (JList (xs @ replicate (Suc n - length xs) filler))"
proof (induction "Suc n - length xs" arbitrary: xs)
  case 0
  then show ?case
    by (subst pad.simps) simp
next
  case (Suc k)
  then have "Suc n - length (xs @ [filler]) = k" and "length xs \<le> n"
    by simp_all
  with Suc.hyps(1) [of "xs @ [filler]"] Suc.hyps(2) show ?case
    by (subst pad.simps) (simp add: replicate_app_Cons_same flip: Suc.hyps(2))
qed

lemma digits_ok_digits:
  "ds \<noteq> [] \<Longrightarrow> \<forall>c \<in> set ds. is_digit c \<Longrightarrow> digits_ok ds"
proof (induction ds rule: digits_ok.induct)
  case (3 c d cs)
  then have "d \<noteq> CHR ''_''"
    by (auto simp: is_digit_def)
  with 3 show ?case by simp
qed simp_all

lemma digit_not_space: "is_digit c \<Longrightarrow> \<not> is_space c"
  by (auto simp: is_digit_def is_space_def)

lemma strip_digits:
  assumes "\<forall>c \<in> set ds. is_digit c"
  shows "strip ds = ds"
proof -
  have "dropWhile is_space xs = xs" if "\<forall>c \<in> set xs. is_digit c" for xs
    using that by (cases xs) (auto dest: digit_not_space)
  from this [of ds] this [of "rev ds"] assms show ?thesis
    by (simp add: strip_def)
qed

lemma py_int_digits:
  assumes "ds \<noteq> []" and "\<forall>c \<in> set ds. is_digit c"
  shows "py_int ds = Inr (int (digits_val ds))"
proof -
  from assms have "is_digit (hd ds)"
    by (cases ds) simp_all
  then have "hd ds \<noteq> CHR ''-''" and "hd ds \<noteq> CHR ''+''"
    by (auto simp: is_digit_def)
  with assms show ?thesis
    by (simp add: py_int_def strip_digits digits_ok_digits Let_def)
qed

lemma py_int_error: "py_int s = Inl e \<Longrightarrow> e = ValueError"
  by (auto simp: py_int_def Let_def split: if_splits)

lemma takeWhile_until: "ch \<notin> set xs \<Longrightarrow> takeWhile (\<lambda>c. c \<noteq> ch) (xs @ ch # ys) = xs"
  by (induction xs) auto

lemma bracket_parts:
  assumes "CHR ''['' \<notin> set name" and "CHR '']'' \<notin> set name" and "CHR '']'' \<notin> set ds"
  shows "has_brackets (name @ ''['' @ ds @ '']'')"
    and "base_key_of (name @ ''['' @ ds @ '']'') = name"
    and "index_text (name @ ''['' @ ds @ '']'') = ds"
proof -
  let ?seg = "name @ ''['' @ ds @ '']''"
  show "has_brackets ?seg"
    by (simp add: has_brackets_def)
  have open_at: "str_index ?seg CHR ''['' = length name"
    using assms(1) by (simp add: str_index_def takeWhile_until)
  have "takeWhile (\<lambda>c. c \<noteq> CHR '']'') ((name @ ''['' @ ds) @ CHR '']'' # []) = name @ ''['' @ ds"
    using assms(2,3) by (intro takeWhile_until) simp
  then have "takeWhile (\<lambda>c. c \<noteq> CHR '']'') ?seg = name @ ''['' @ ds"
    by simp
  then have close_at: "str_index ?seg CHR '']'' = length name + 1 + length ds"
    by (simp add: str_index_def)
  show "base_key_of ?seg = name"
    unfolding base_key_of_def open_at by simp
  show "index_text ?seg = ds"
    unfolding index_text_def slice_def open_at close_at by simp
qed

lemma seq_pos_nat: "n < m \<Longrightarrow> seq_pos m (int n) = Some n"
  by (simp add: seq_pos_def)

lemma length_zero_extend: "length (zero_extend xs n filler) = max (length xs) (Suc n)"
  by (simp add: zero_extend_def)

lemma pad_zero_extend: "pad (JList xs) (int n) filler = Inr (JList (zero_extend xs n filler))"
  by (simp add: pad_list zero_extend_def)

lemma sequence_of_key:
  assumes "bound_sequence d name xs"
  shows "then_do (ensure_key (JDict d) name (JList []))
           (\<lambda>current1. then_do (py_getitem_str current1 name) (\<lambda>lst. f current1 lst)) =
         f (JDict (if map_of d (KStr name) = None then dict_set d (KStr name) (JList []) else d))
           (JList xs)"
  using assms
  by (cases "map_of d (KStr name)")
     (simp_all add: bound_sequence_def ensure_key_def contains_dict del: py_contains.simps)

lemma bracket_final:
  assumes "has_brackets seg" and "py_int (index_text seg) = Inr (int n)"
      and "bound_sequence d (base_key_of seg) xs"
  shows "set_path [seg] v (JDict d) =
     Inr (JDict (dict_set d (KStr (base_key_of seg)) (JList ((zero_extend xs n JNull)[n := v]))))"
proof -
  let ?k = "base_key_of seg"
  have "set_path [seg] v (JDict d) =
      then_do (ensure_key (JDict d) ?k (JList []))
        (\<lambda>current1. then_do (py_getitem_str current1 ?k) (\<lambda>lst.
           then_do (pad lst (int n) JNull) (\<lambda>lst1.
           then_do (py_setitem_int lst1 (int n) v) (\<lambda>lst2.
             py_setitem_str current1 ?k lst2))))"
    using assms(1,2) by (simp add: then_do_def)
  also have "\<dots> = Inr (JDict (dict_set d (KStr ?k) (JList ((zero_extend xs n JNull)[n := v]))))"
    by (subst sequence_of_key [OF assms(3)])
       (simp add: pad_zero_extend seq_pos_nat length_zero_extend)
  finally show ?thesis .
qed

lemma bracket_inner:
  assumes "has_brackets seg" and "py_int (index_text seg) = Inr (int n)"
      and "bound_sequence d (base_key_of seg) xs"
  shows "set_path (seg # p # rest) v (JDict d) =
     then_do (set_path (p # rest) v (zero_extend xs n (JDict []) ! n))
       (\<lambda>child. Inr (JDict (dict_set d (KStr (base_key_of seg))
                   (JList ((zero_extend xs n (JDict []))[n := child])))))"
proof -
  let ?k = "base_key_of seg"
  have "set_path (seg # p # rest) v (JDict d) =
      then_do (ensure_key (JDict d) ?k (JList []))
        (\<lambda>current1. then_do (py_getitem_str current1 ?k) (\<lambda>lst.
           then_do (pad lst (int n) (JDict [])) (\<lambda>lst1.
           then_do (py_getitem_int lst1 (int n)) (\<lambda>child.
           then_do (set_path (p # rest) v child) (\<lambda>child'.
           then_do (py_setitem_int lst1 (int n) child') (\<lambda>lst2.
             py_setitem_str current1 ?k lst2))))))"
    using assms(1,2) by (simp add: then_do_def)
  also have "\<dots> = then_do (set_path (p # rest) v (zero_extend xs n (JDict []) ! n))
       (\<lambda>child. Inr (JDict (dict_set d (KStr ?k)
                   (JList ((zero_extend xs n (JDict []))[n := child])))))"
    by (subst sequence_of_key [OF assms(3)])
       (simp add: pad_zero_extend seq_pos_nat length_zero_extend)
  finally show ?thesis .
qed


lemma plain_final:
  "\<not> has_brackets seg \<Longrightarrow>
     set_path [seg] v (JDict d) = Inr (JDict (dict_set d (KStr seg) v))"
  by simp

lemma parse_single_key:
  assumes "CHR ''.'' \<notin> set seg"
  shows "split_on CHR ''.'' seg = [seg]"
  using assms by (induction seg) auto

lemma parse_post_data_key:
  "parse_post decode [(''data.'' @ path, v)] data =
     set_path (split_on CHR ''.'' path) (JStr v) data"
  by (simp add: startswith_def split: sum.splits)

section \<open>Indexed segments of the POST pass\<close>

text \<open>
  C4. In the POST pass, let a segment be \<open>name[digits]\<close>, with index \<open>n\<close>, met on a
  dict where \<open>name\<close> is unbound or bound to a list \<open>xs\<close>. The list is extended with
  fillers until position \<open>n\<close> exists and is bound to \<open>name\<close>. As the final segment the
  fillers are \<open>None\<close> and the value is stored at \<open>n\<close>; as an intermediate segment the
  fillers are empty dicts and the rest of the path is built in the element at \<open>n\<close>. The
  single key \<open>data.items[2].x\<close> with value \<open>v\<close> gives a list of three elements under
  \<open>items\<close>: two empty dicts and a dict with \<open>x\<close> bound to \<open>v\<close>.
\<close>

theorem index_gap_filling:
  assumes "CHR ''['' \<notin> set name" and "CHR '']'' \<notin> set name"
      and "digits \<noteq> []" and "\<forall>c \<in> set digits. is_digit c"
      and "bound_sequence d name xs"
  shows "digits_val digits < length (zero_extend xs (digits_val digits) filler)
       \<and> take (length xs) (zero_extend xs (digits_val digits) filler) = xs
       \<and> (\<forall>i < length (zero_extend xs (digits_val digits) filler).
             length xs \<le> i \<longrightarrow> zero_extend xs (digits_val digits) filler ! i = filler)
       \<and> set_path [name @ ''['' @ digits @ '']''] v (JDict d) =
           Inr (JDict (dict_set d (KStr name)
                  (JList ((zero_extend xs (digits_val digits) JNull)[digits_val digits := v]))))
       \<and> set_path ((name @ ''['' @ digits @ '']'') # p # rest) v (JDict d) =
           then_do (set_path (p # rest) v
                      (zero_extend xs (digits_val digits) (JDict []) ! digits_val digits))
             (\<lambda>child. Inr (JDict (dict_set d (KStr name)
                  (JList ((zero_extend xs (digits_val digits) (JDict []))
                            [digits_val digits := child])))))
       \<and> parse_multipart_data decode (form_request [(''data.items[2].x'', ''v'')] []) =
           Inr (JDict [(KStr ''items'',
                  JList [JDict [], JDict [], JDict [(KStr ''x'', JStr ''v'')]])])"
proof -
  let ?seg = "name @ ''['' @ digits @ '']''"
  let ?n = "digits_val digits"
  have no_close: "CHR '']'' \<notin> set digits"
    using assms(4) by (auto simp: is_digit_def)
  note parts = bracket_parts [OF assms(1,2) no_close]
  have idx: "py_int (index_text ?seg) = Inr (int ?n)"
    by (simp only: parts py_int_digits [OF assms(3,4)])
  have seq: "bound_sequence d (base_key_of ?seg) xs"
    using assms(5) by (simp only: parts)
  have 1: "?n < length (zero_extend xs ?n filler)"
    by (simp add: length_zero_extend)
  have 2: "take (length xs) (zero_extend xs ?n filler) = xs"
    by (simp add: zero_extend_def)
  have 3: "\<forall>i < length (zero_extend xs ?n filler).
             length xs \<le> i \<longrightarrow> zero_extend xs ?n filler ! i = filler"
    by (auto simp: zero_extend_def nth_append)
  have 4: "set_path [?seg] v (JDict d) =
           Inr (JDict (dict_set d (KStr name) (JList ((zero_extend xs ?n JNull)[?n := v]))))"
    using bracket_final [OF parts(1) idx seq, of v] by (simp only: parts)
  have 5: "set_path (?seg # p # rest) v (JDict d) =
           then_do (set_path (p # rest) v (zero_extend xs ?n (JDict []) ! ?n))
             (\<lambda>child. Inr (JDict (dict_set d (KStr name)
                  (JList ((zero_extend xs ?n (JDict []))[?n := child])))))"
    using bracket_inner [OF parts(1) idx seq, of p rest v] by (simp only: parts)
  have items: "has_brackets ''items[2]''" "base_key_of ''items[2]'' = ''items''"
    "index_text ''items[2]'' = ''2''"
    using bracket_parts [of "''items''" "''2''"] by simp_all
  have two: "py_int ''2'' = Inr (int 2)"
    using py_int_digits [of "''2''"] by (simp add: is_digit_def digits_val_def digit_val_def)
  have "set_path [''items[2]'', ''x''] (JStr ''v'') (JDict []) =
      Inr (JDict [(KStr ''items'', JList [JDict [], JDict [], JDict [(KStr ''x'', JStr ''v'')]])])"
    using bracket_inner [of "''items[2]''" 2 "[]" "[]" "''x''" "[]" "JStr ''v''"] items two
    by (simp add: bound_sequence_def zero_extend_def has_brackets_def numeral_2_eq_2)
  then have 6: "parse_multipart_data decode (form_request [(''data.items[2].x'', ''v'')] []) =
           Inr (JDict [(KStr ''items'',
                  JList [JDict [], JDict [], JDict [(KStr ''x'', JStr ''v'')]])])"
    using parse_post_data_key [of decode "''items[2].x''" "''v''" "JDict []"]
    by (simp add: parse_multipart_data_def form_request_def)
  from 1 2 3 4 5 6 show ?thesis
    by (intro conjI)
qed

theorem index_gap_filling_witness:
  "bound_sequence [(KStr ''tags'', JList [JStr ''a''])] ''tags'' [JStr ''a'']
   \<and> set_path [''tags[3]''] (JStr ''d'') (JDict [(KStr ''tags'', JList [JStr ''a''])]) =
       Inr (JDict [(KStr ''tags'', JList [JStr ''a'', JNull, JNull, JStr ''d''])])
   \<and> set_path [''rows[1]'', ''id''] (JStr ''7'') (JDict []) =
       Inr (JDict [(KStr ''rows'', JList [JDict [], JDict [(KStr ''id'', JStr ''7'')]])])"
proof -
  have b1: "bound_sequence [(KStr ''tags'', JList [JStr ''a''])] ''tags'' [JStr ''a'']"
    by (simp add: bound_sequence_def)
  have b2: "bound_sequence [] ''rows'' []"
    by (simp add: bound_sequence_def)
  have d3: "\<forall>c \<in> set ''3''. is_digit c" and d1: "\<forall>c \<in> set ''1''. is_digit c"
    by (simp_all add: is_digit_def)
  have v3: "digits_val ''3'' = 3" and v1: "digits_val ''1'' = 1"
    by (simp_all add: digits_val_def digit_val_def)
  have inner: "set_path [''id''] (JStr ''7'') (JDict []) = Inr (JDict [(KStr ''id'', JStr ''7'')])"
    by (simp add: has_brackets_def)
  have n1: "CHR ''['' \<notin> set ''tags''" "CHR '']'' \<notin> set ''tags''" "''3'' \<noteq> []"
    and n2: "CHR ''['' \<notin> set ''rows''" "CHR '']'' \<notin> set ''rows''" "''1'' \<noteq> []"
    by simp_all
  note final = index_gap_filling [OF n1 d3 b1, THEN conjunct2, THEN conjunct2, THEN conjunct2,
      THEN conjunct1, of "JStr ''d''"]
  note inner_step = index_gap_filling [OF n2 d1 b2, THEN conjunct2, THEN conjunct2,
      THEN conjunct2, THEN conjunct2, THEN conjunct1, of "''id''" "[]" "JStr ''7''"]
  have 1: "set_path [''tags[3]''] (JStr ''d'') (JDict [(KStr ''tags'', JList [JStr ''a''])]) =
       Inr (JDict [(KStr ''tags'', JList [JStr ''a'', JNull, JNull, JStr ''d''])])"
    using final by (simp add: v3 zero_extend_def numeral_3_eq_3 del: set_path.simps)
  have 2: "set_path [''rows[1]'', ''id''] (JStr ''7'') (JDict []) =
       Inr (JDict [(KStr ''rows'', JList [JDict [], JDict [(KStr ''id'', JStr ''7'')]])])"
    using inner_step by (simp add: v1 zero_extend_def inner del: set_path.simps)
  from b1 1 2 show ?thesis
    by (intro conjI)
qed

lemma in_dropWhile: "x \<in> set xs \<Longrightarrow> \<not> P x \<Longrightarrow> x \<in> set (dropWhile P xs)"
  by (induction xs) auto

lemma in_strip: "c \<in> set s \<Longrightarrow> \<not> is_space c \<Longrightarrow> c \<in> set (strip s)"
  by (simp add: strip_def in_dropWhile)

lemma digits_ok_chars: "digits_ok ds \<Longrightarrow> c \<in> set ds \<Longrightarrow> is_digit c \<or> c = CHR ''_''"
  by (induction ds rule: digits_ok.induct) (auto split: if_splits)

lemma py_int_not_literal:
  assumes "txt = [] \<or> (\<exists>c \<in> set txt. not_int_char c)"
  shows "py_int txt = Inl ValueError"
proof -
  let ?t = "strip txt"
  let ?ds = "if ?t \<noteq> [] \<and> (hd ?t = CHR ''-'' \<or> hd ?t = CHR ''+'') then tl ?t else ?t"
  have "\<not> digits_ok ?ds"
  proof (cases "txt = []")
    case True
    then show ?thesis
      by (simp add: strip_def)
  next
    case False
    with assms obtain c where c: "c \<in> set txt" "not_int_char c"
      by blast
    then have "c \<in> set ?t"
      by (simp add: in_strip not_int_char_def)
    moreover from c have "c \<noteq> CHR ''-''" "c \<noteq> CHR ''+''"
      by (simp_all add: not_int_char_def)
    ultimately have "c \<in> set ?ds"
      by (cases ?t) auto
    with c(2) show ?thesis
      by (auto simp: not_int_char_def dest: digits_ok_chars)
  qed
  then show ?thesis
    by (simp add: py_int_def Let_def)
qed

lemma set_path_bad_index:
  assumes "has_brackets seg" and "py_int (index_text seg) = Inl e"
  shows "set_path [seg] v current = Inl e"
    and "set_path (seg # p # rest) v current = Inl e"
  using assms by simp_all

lemma parse_one_field:
  "parse_multipart_data decode (form_request [(''data.'' @ path, v)] file_lists) =
     then_do (set_path (split_on CHR ''.'' path) (JStr v) (JDict []))
       (\<lambda>data. parse_files file_lists data)"
  by (simp add: parse_multipart_data_def form_request_def startswith_def split: sum.splits)

lemma bad_index_error:
  assumes "bad_index seg"
  shows "has_brackets seg" and "py_int (index_text seg) = Inl ValueError"
proof -
  from assms show "has_brackets seg"
    by (simp add: bad_index_def)
  from assms obtain e where "py_int (index_text seg) = Inl e"
    by (cases "py_int (index_text seg)") (simp_all add: bad_index_def)
  with py_int_error [OF this] show "py_int (index_text seg) = Inl ValueError"
    by simp
qed

lemma set_path_at_bad_index:
  assumes "bad_index seg"
  shows "set_path (seg # rest) v current = Inl ValueError"
  using bad_index_error [OF assms] by (cases rest) simp_all

lemma set_path_bad_somewhere:
  assumes "bad_index seg"
  shows "seg \<in> set parts \<Longrightarrow> \<exists>e. set_path parts v current = Inl e"
proof (induction parts arbitrary: current)
  case Nil
  then show ?case by simp
next
  case (Cons p ps)
  show ?case
  proof (cases "p = seg")
    case True
    then show ?thesis
      by (simp add: set_path_at_bad_index [OF assms])
  next
    case False
    with Cons.prems have in_rest: "seg \<in> set ps"
      by simp
    then obtain q r where ps: "ps = q # r"
      by (cases ps) simp_all
    have fails: "\<exists>e. set_path (q # r) v child = Inl e" for child
      using Cons.IH [OF in_rest, of child] by (simp add: ps)
    have "\<not> (\<exists>x. set_path (p # q # r) v current = Inr x)"
      using fails by (auto split: if_splits sum.splits) (metis Inl_Inr_False)+
    then show ?thesis
      unfolding ps by (cases "set_path (p # q # r) v current") auto
  qed
qed

lemma descend_then_fail:
  assumes "descend p current = Inr child" and "set_path (q # r) v child = Inl e"
  shows "set_path (p # q # r) v current = Inl e"
  using assms by (auto simp: descend_def then_do_def split: if_splits sum.splits)

lemma walk_then_fail:
  assumes "\<And>child. set_path (seg # after) v child = Inl e"
  shows "walk before current = Inr reached \<Longrightarrow> set_path (before @ seg # after) v current = Inl e"
proof (induction before arbitrary: current)
  case Nil
  then show ?case
    by (simp add: assms)
next
  case (Cons p ps)
  from Cons.prems obtain child where d: "descend p current = Inr child"
    and w: "walk ps child = Inr reached"
    by (auto simp: then_do_eq_Inr)
  from Cons.IH [OF w] have f: "set_path (ps @ seg # after) v child = Inl e" .
  obtain q r where "ps @ seg # after = q # r"
    by (cases ps) simp_all
  with descend_then_fail [OF d, of q r v e] f show ?case
    by simp
qed

lemma parse_post_append:
  "parse_post decode (xs @ ys) data =
     then_do (parse_post decode xs data) (parse_post decode ys)"
proof (induction xs arbitrary: data)
  case Nil
  then show ?case by simp
next
  case (Cons item xs)
  obtain key val where "item = (key, val)"
    by (cases item)
  with Cons.IH show ?case
    by (simp split: sum.splits)
qed

lemma parse_post_data_first:
  "parse_post decode ((''data.'' @ path, v) # post) data =
     then_do (set_path (split_on CHR ''.'' path) (JStr v) data) (parse_post decode post)"
  by (simp add: startswith_def split: sum.splits)

lemma parse_post_bad_somewhere:
  assumes "startswith key ''data.''" and "seg \<in> set (split_on CHR ''.'' (drop 5 key))"
      and "bad_index seg"
  shows "(key, v) \<in> set items \<Longrightarrow> \<exists>e. parse_post decode items data = Inl e"
proof (induction items arbitrary: data)
  case Nil
  then show ?case by simp
next
  case (Cons item items)
  obtain k val where item: "item = (k, val)"
    by (cases item)
  show ?case
  proof (cases "item = (key, v)")
    case True
    from set_path_bad_somewhere [OF assms(3,2), of "JStr v" data] obtain e where
      "set_path (split_on CHR ''.'' (drop 5 key)) (JStr v) data = Inl e"
      by blast
    with True assms(1) show ?thesis
      by simp
  next
    case False
    with Cons.prems have "(key, v) \<in> set items"
      by simp
    from Cons.IH [OF this] have rest: "\<exists>e. parse_post decode items data' = Inl e" for data'
      by blast
    show ?thesis
    proof (cases "parse_post decode [item] data")
      case (Inl e)
      then have "parse_post decode (item # items) data = Inl e"
        using parse_post_append [of decode "[item]" items data] by simp
      then show ?thesis by blast
    next
      case (Inr data')
      then have "parse_post decode (item # items) data = parse_post decode items data'"
        using parse_post_append [of decode "[item]" items data] by simp
      with rest [of data'] show ?thesis by simp
    qed
  qed
qed

lemma parse_form:
  "parse_multipart_data decode (form_request items file_lists) =
     then_do (parse_post decode items (JDict [])) (parse_files file_lists)"
  by (simp add: parse_multipart_data_def form_request_def)


section \<open>Malformed brackets\<close>

text \<open>
  C5, as the code has it. Take any form. When a \<open>data.\<close> key has a segment with both
  brackets whose text between the first \<open>[\<close> and the first \<open>]\<close> is no integer literal
  for \<^verbatim>\<open>int\<close> (it is empty, or a sign alone, or holds a space between digits, a doubled
  underscore or a character that is no digit, sign, underscore or whitespace), the
  parse raises and returns no structure; it raises \<open>ValueError\<close> whenever the fields
  before the key are parsed and the segments before that segment are walked without
  an error. A segment that lacks one of the two brackets is a plain key, as a final
  and as an intermediate segment, and raises nothing of its own.
\<close>

theorem malformed_brackets:
  "((key, v) \<in> set items \<and> startswith key ''data.''
      \<and> seg \<in> set (split_on CHR ''.'' (drop 5 key)) \<and> bad_index seg \<longrightarrow>
      (\<exists>e. parse_multipart_data decode (form_request items file_lists) = Inl e))
 \<and> (parse_post decode pre (JDict []) = Inr data
      \<and> split_on CHR ''.'' path = before @ seg # after
      \<and> walk before data = Inr reached \<and> bad_index seg \<longrightarrow>
      parse_multipart_data decode
        (form_request (pre @ (''data.'' @ path, v) # post) file_lists) = Inl ValueError)
 \<and> (has_brackets seg
      \<and> (index_text seg = [] \<or> (\<exists>c \<in> set (index_text seg). not_int_char c)) \<longrightarrow>
      bad_index seg)
 \<and> (\<not> has_brackets seg \<longrightarrow>
      set_path [seg] val current = py_setitem_str current seg val
      \<and> descend seg current =
          then_do (ensure_key current seg (JDict []))
            (\<lambda>current1. py_getitem_str current1 seg))
 \<and> (\<not> has_brackets seg \<and> CHR ''.'' \<notin> set seg
      \<and> parse_post decode pre (JDict []) = Inr (JDict d) \<longrightarrow>
      parse_multipart_data decode (form_request (pre @ [(''data.'' @ seg, v)]) []) =
        Inr (JDict (dict_set d (KStr seg) (JStr v))))"
proof (intro conjI impI)
  assume h: "(key, v) \<in> set items \<and> startswith key ''data.''
      \<and> seg \<in> set (split_on CHR ''.'' (drop 5 key)) \<and> bad_index seg"
  then have "(key, v) \<in> set items" "startswith key ''data.''"
    "seg \<in> set (split_on CHR ''.'' (drop 5 key))" "bad_index seg"
    by simp_all
  from parse_post_bad_somewhere [OF this(2,3,4,1), of decode "JDict []"] obtain e where
    "parse_post decode items (JDict []) = Inl e"
    by blast
  then have "parse_multipart_data decode (form_request items file_lists) = Inl e"
    by (simp add: parse_form)
  then show "\<exists>e. parse_multipart_data decode (form_request items file_lists) = Inl e"
    by blast
next
  assume h: "parse_post decode pre (JDict []) = Inr data
      \<and> split_on CHR ''.'' path = before @ seg # after
      \<and> walk before data = Inr reached \<and> bad_index seg"
  then have pre: "parse_post decode pre (JDict []) = Inr data"
    and parts: "split_on CHR ''.'' path = before @ seg # after"
    and w: "walk before data = Inr reached" and bad: "bad_index seg"
    by simp_all
  have "set_path (before @ seg # after) (JStr v) data = Inl ValueError"
    using walk_then_fail [OF set_path_at_bad_index [OF bad] w] .
  then have "parse_post decode ((''data.'' @ path, v) # post) data = Inl ValueError"
    by (simp only: parse_post_data_first parts then_do_Inl)
  then have "parse_post decode (pre @ (''data.'' @ path, v) # post) (JDict []) = Inl ValueError"
    by (simp only: parse_post_append pre then_do_Inr)
  then show "parse_multipart_data decode
        (form_request (pre @ (''data.'' @ path, v) # post) file_lists) = Inl ValueError"
    by (simp only: parse_form then_do_Inl)
next
  assume "has_brackets seg
      \<and> (index_text seg = [] \<or> (\<exists>c \<in> set (index_text seg). not_int_char c))"
  then show "bad_index seg"
    by (simp add: bad_index_def py_int_not_literal)
next
  assume "\<not> has_brackets seg"
  then show "set_path [seg] val current = py_setitem_str current seg val"
    by simp
next
  assume "\<not> has_brackets seg"
  then show "descend seg current =
          then_do (ensure_key current seg (JDict []))
            (\<lambda>current1. py_getitem_str current1 seg)"
    by (simp add: descend_def)
next
  assume h: "\<not> has_brackets seg \<and> CHR ''.'' \<notin> set seg
      \<and> parse_post decode pre (JDict []) = Inr (JDict d)"
  then have plain: "\<not> has_brackets seg" and dot: "CHR ''.'' \<notin> set seg"
    and pre: "parse_post decode pre (JDict []) = Inr (JDict d)"
    by simp_all
  have "set_path [seg] (JStr v) (JDict d) = Inr (JDict (dict_set d (KStr seg) (JStr v)))"
    using plain by (simp add: plain_final)
  then have "parse_post decode [(''data.'' @ seg, v)] (JDict d) =
      Inr (JDict (dict_set d (KStr seg) (JStr v)))"
    by (simp only: parse_post_data_first parse_single_key [OF dot] then_do_Inr parse_post.simps(1))
  then have "parse_post decode (pre @ [(''data.'' @ seg, v)]) (JDict []) =
      Inr (JDict (dict_set d (KStr seg) (JStr v)))"
    by (simp only: parse_post_append pre then_do_Inr)
  then show "parse_multipart_data decode (form_request (pre @ [(''data.'' @ seg, v)]) []) =
        Inr (JDict (dict_set d (KStr seg) (JStr v)))"
    by (simp only: parse_form then_do_Inr parse_files.simps)
qed

theorem malformed_brackets_witness:
  "parse_multipart_data (loads (stand_in JNull []))
     (form_request [(''data.title'', ''t''), (''data.rows[0].cells[+]'', ''v''), (''id'', ''c1'')] []) =
     Inl ValueError
   \<and> bad_index ''a[]'' \<and> bad_index ''a[x]'' \<and> bad_index ''a[-]'' \<and> bad_index ''a[1 2]''
   \<and> bad_index ''a[1__2]'' \<and> bad_index (''a['' @ [CHR 0x1F] @ ''1]'') \<and> \<not> bad_index ''a[ 1_0 ]''
   \<and> parse_multipart_data (loads (stand_in JNull []))
       (form_request [(''data.title'', ''t''), (''data.items['', ''v'')] []) =
     Inr (JDict [(KStr ''title'', JStr ''t''), (KStr ''items['', JStr ''v'')])"
proof -
  let ?decode = "loads (stand_in JNull [])"
  have pre: "parse_post ?decode [(''data.title'', ''t'')] (JDict []) =
      Inr (JDict [(KStr ''title'', JStr ''t'')])"
    by (simp add: startswith_def has_brackets_def)
  have parts: "split_on CHR ''.'' ''rows[0].cells[+]'' = [''rows[0]''] @ ''cells[+]'' # []"
    by simp
  have row: "has_brackets ''rows[0]''" "base_key_of ''rows[0]'' = ''rows''"
    "index_text ''rows[0]'' = ''0''"
    using bracket_parts [of "''rows''" "''0''"] by simp_all
  have zero: "py_int ''0'' = Inr 0"
    using py_int_digits [of "''0''"] by (simp add: is_digit_def digits_val_def digit_val_def)
  have w: "walk [''rows[0]''] (JDict [(KStr ''title'', JStr ''t'')]) = Inr (JDict [])"
    using pad_list [of "[]" 0 "JDict []"]
    by (simp add: descend_def row zero ensure_key_def seq_pos_def)
  have cells: "has_brackets ''cells[+]''" "index_text ''cells[+]'' = ''+''"
    using bracket_parts [of "''cells''" "''+''"] by simp_all
  have plus: "bad_index ''cells[+]''"
    by (simp add: bad_index_def cells py_int_def strip_def is_space_def)
  have texts: "index_text ''a[]'' = []" "index_text ''a[x]'' = ''x''" "index_text ''a[-]'' = ''-''"
    "index_text ''a[1 2]'' = ''1 2''" "index_text ''a[1__2]'' = ''1__2''"
    "index_text (''a['' @ [CHR 0x1F] @ ''1]'') = [CHR 0x1F] @ ''1''"
    "index_text ''a[ 1_0 ]'' = '' 1_0 ''"
    using bracket_parts(3) [of "''a''" "[]"] bracket_parts(3) [of "''a''" "''x''"]
      bracket_parts(3) [of "''a''" "''-''"] bracket_parts(3) [of "''a''" "''1 2''"]
      bracket_parts(3) [of "''a''" "''1__2''"] bracket_parts(3) [of "''a''" "[CHR 0x1F] @ ''1''"]
      bracket_parts(3) [of "''a''" "'' 1_0 ''"]
    by simp_all
  have b: "bad_index ''a[]''" "bad_index ''a[x]''" "bad_index ''a[-]''" "bad_index ''a[1 2]''"
    "bad_index ''a[1__2]''" "bad_index (''a['' @ [CHR 0x1F] @ ''1]'')" "\<not> bad_index ''a[ 1_0 ]''"
    unfolding bad_index_def texts
    by (simp_all add: has_brackets_def py_int_def strip_def is_space_def is_digit_def)
  have plain: "\<not> has_brackets ''items[''" "CHR ''.'' \<notin> set ''items[''"
    by (simp_all add: has_brackets_def)
  note m = malformed_brackets [where decode = ?decode and pre = "[(''data.title'', ''t'')]"
      and data = "JDict [(KStr ''title'', JStr ''t'')]" and d = "[(KStr ''title'', JStr ''t'')]"]
  have 1: "parse_multipart_data ?decode
     (form_request [(''data.title'', ''t''), (''data.rows[0].cells[+]'', ''v''), (''id'', ''c1'')] []) =
     Inl ValueError"
    using m [where path = "''rows[0].cells[+]''" and before = "[''rows[0]'']"
        and seg = "''cells[+]''" and after = "[]" and reached = "JDict []" and v = "''v''"
        and post = "[(''id'', ''c1'')]" and file_lists = "[]", THEN conjunct2, THEN conjunct1]
      pre parts w plus
    by simp
  have 2: "parse_multipart_data ?decode
       (form_request [(''data.title'', ''t''), (''data.items['', ''v'')] []) =
     Inr (JDict [(KStr ''title'', JStr ''t''), (KStr ''items['', JStr ''v'')])"
    using m [where seg = "''items[''" and v = "''v''", THEN conjunct2, THEN conjunct2,
        THEN conjunct2, THEN conjunct2] pre plain
    by simp
  from 1 b 2 show ?thesis
    by (intro conjI)
qed

theorem malformed_brackets_counterexample:
  "parse_multipart_data (loads (stand_in JNull [])) (form_request [(''data.items]'', ''v'')] []) =
     Inr (JDict [(KStr ''items]'', JStr ''v'')])
   \<and> parse_multipart_data (loads (stand_in JNull [])) (form_request [(''data.items[0'', ''v'')] []) =
     Inr (JDict [(KStr ''items[0'', JStr ''v'')])
   \<and> parse_multipart_data (loads (stand_in JNull [])) (form_request [(''data.items[0]x'', ''v'')] []) =
     Inr (JDict [(KStr ''items'', JList [JStr ''v''])])"
proof -
  have 1: "set_path [''items]''] (JStr ''v'') (JDict []) = Inr (JDict [(KStr ''items]'', JStr ''v'')])"
    and 2: "set_path [''items[0''] (JStr ''v'') (JDict []) = Inr (JDict [(KStr ''items[0'', JStr ''v'')])"
    by (simp_all add: has_brackets_def)
  have b: "has_brackets ''items[0]x''"
    by (simp add: has_brackets_def)
  have k: "base_key_of ''items[0]x'' = ''items''"
    by (simp add: base_key_of_def str_index_def)
  have i: "py_int (index_text ''items[0]x'') = Inr (int 0)"
    by (simp add: index_text_def slice_def str_index_def py_int_def strip_def is_space_def
        is_digit_def digits_val_def digit_val_def)
  have s: "bound_sequence [] (base_key_of ''items[0]x'') []"
    by (simp add: bound_sequence_def)
  have 3: "set_path [''items[0]x''] (JStr ''v'') (JDict []) =
      Inr (JDict [(KStr ''items'', JList [JStr ''v''])])"
    using bracket_final [OF b i s, of "JStr ''v''"] by (simp add: k zero_extend_def)
  have sp: "split_on CHR ''.'' ''items]'' = [''items]'']"
    "split_on CHR ''.'' ''items[0'' = [''items[0'']"
    "split_on CHR ''.'' ''items[0]x'' = [''items[0]x'']"
    by (simp_all add: parse_single_key)
  show ?thesis
    using parse_one_field [of "loads (stand_in JNull [])" "''items]''" "''v''" "[]"]
          parse_one_field [of "loads (stand_in JNull [])" "''items[0''" "''v''" "[]"]
          parse_one_field [of "loads (stand_in JNull [])" "''items[0]x''" "''v''" "[]"]
    by (simp add: 1 2 3 sp del: set_path.simps)
qed

lemma parse_one_file:
  "parse_multipart_data decode (form_request [] [(''data.'' @ path, file_list)]) =
     set_file_path (split_on CHR ''.'' path) (file_value file_list) (JDict [])"
  by (simp add: parse_multipart_data_def form_request_def startswith_def split: sum.splits)

section \<open>The FILES pass\<close>

text \<open>
  C7. In the FILES pass one file under \<open>data.upload\<close> is stored as the file itself and
  two files as the list of both, in order. A bracket in a file key is not read as an
  index: the key \<open>data.docs[0]\<close> with one file binds the file to the plain key
  \<open>docs[0]\<close>, where the same key in the POST pass builds the list \<open>docs\<close> with the
  value at position 0.
\<close>

theorem files_pass_plain_keys:
  "parse_multipart_data (loads (stand_in JNull []))
     (form_request [] [(''data.upload'', [report_file])]) =
     Inr (JDict [(KStr ''upload'', JFile report_file)])
   \<and> parse_multipart_data (loads (stand_in JNull []))
       (form_request [] [(''data.upload'', [report_file, photo_file])]) =
     Inr (JDict [(KStr ''upload'', JList [JFile report_file, JFile photo_file])])
   \<and> parse_multipart_data (loads (stand_in JNull []))
       (form_request [] [(''data.docs[0]'', [report_file])]) =
     Inr (JDict [(KStr ''docs[0]'', JFile report_file)])
   \<and> parse_multipart_data (loads (stand_in JNull []))
       (form_request [(''data.docs[0]'', ''v'')] []) =
     Inr (JDict [(KStr ''docs'', JList [JStr ''v''])])"
proof -
  have sp: "split_on CHR ''.'' ''upload'' = [''upload'']"
    "split_on CHR ''.'' ''docs[0]'' = [''docs[0]'']"
    by (simp_all add: parse_single_key)
  have 1: "parse_multipart_data (loads (stand_in JNull []))
     (form_request [] [(''data.upload'', [report_file])]) =
     Inr (JDict [(KStr ''upload'', JFile report_file)])"
    using parse_one_file [of "loads (stand_in JNull [])" "''upload''" "[report_file]"]
    by (simp add: sp file_value_def)
  have 2: "parse_multipart_data (loads (stand_in JNull []))
       (form_request [] [(''data.upload'', [report_file, photo_file])]) =
     Inr (JDict [(KStr ''upload'', JList [JFile report_file, JFile photo_file])])"
    using parse_one_file [of "loads (stand_in JNull [])" "''upload''" "[report_file, photo_file]"]
    by (simp add: sp file_value_def)
  have 3: "parse_multipart_data (loads (stand_in JNull []))
       (form_request [] [(''data.docs[0]'', [report_file])]) =
     Inr (JDict [(KStr ''docs[0]'', JFile report_file)])"
    using parse_one_file [of "loads (stand_in JNull [])" "''docs[0]''" "[report_file]"]
    by (simp add: sp file_value_def)
  have b: "has_brackets ''docs[0]''" and k: "base_key_of ''docs[0]'' = ''docs''"
    and t: "index_text ''docs[0]'' = ''0''"
    using bracket_parts [of "''docs''" "''0''"] by simp_all
  have i: "py_int (index_text ''docs[0]'') = Inr (int 0)"
    using py_int_digits [of "''0''"] by (simp add: t is_digit_def digits_val_def digit_val_def)
  have s: "bound_sequence [] (base_key_of ''docs[0]'') []"
    by (simp add: bound_sequence_def)
  have "set_path [''docs[0]''] (JStr ''v'') (JDict []) =
      Inr (JDict [(KStr ''docs'', JList [JStr ''v''])])"
    using bracket_final [OF b i s, of "JStr ''v''"] by (simp add: k zero_extend_def)
  then have 4: "parse_multipart_data (loads (stand_in JNull []))
       (form_request [(''data.docs[0]'', ''v'')] []) =
     Inr (JDict [(KStr ''docs'', JList [JStr ''v''])])"
    using parse_one_field [of "loads (stand_in JNull [])" "''docs[0]''" "''v''" "[]"]
    by (simp add: sp del: set_path.simps)
  from 1 2 3 4 show ?thesis
    by (intro conjI)
qed

end
